theory Spec2Isabelle
  imports Main "HOL-Library.Word"
begin

unbundle bit_operations_syntax

section \<open>Platform: types, constants and the layout of the native structures\<close>

text \<open>
  The embedding fixes the platform the library is built on: Linux on a little-endian
  machine. The family discriminator \<open>sa_family_t\<close> is an unsigned 16-bit integer at byte 0
  of every socket address structure, stored in host byte order; \<open>in_port_t\<close> is an
  unsigned 16-bit integer at byte 2, stored in network byte order.
\<close>

type_synonym byte = "8 word"
type_synonym sa_family_t = "16 word"
type_synonym in_port_t = "16 word"
type_synonym error_t = int

definition AF_UNSPEC :: sa_family_t where "AF_UNSPEC = 0"
definition AF_INET :: sa_family_t where "AF_INET = 2"
definition AF_INET6 :: sa_family_t where "AF_INET6 = 10"

definition EINVAL :: error_t where "EINVAL = 22"
definition ENOSPC :: error_t where "ENOSPC = 28"
definition EAFNOSUPPORT :: error_t where "EAFNOSUPPORT = 97"

definition INET6_ADDRSTRLEN :: nat where "INET6_ADDRSTRLEN = 46"

text \<open>\<open>sizeof (sockaddr_in)\<close>, \<open>sizeof (sockaddr_in6)\<close> and the offsets of their fields.\<close>

definition sizeof_sin :: nat where "sizeof_sin = 16"
definition sizeof_sin6 :: nat where "sizeof_sin6 = 28"
definition off_sin_port :: nat where "off_sin_port = 2"
definition off_sin_addr :: nat where "off_sin_addr = 4"
definition off_sin6_port :: nat where "off_sin6_port = 2"
definition off_sin6_addr :: nat where "off_sin6_addr = 8"

text \<open>
  Modelled from the spec: the union \<open>socketaddr::sa\<close> (members \<open>sa\<close>, \<open>sin\<close>, \<open>sin6\<close>,
  \<open>sa_family\<close>) is declared in \<open>cppsock.hpp\<close>, which is not among the sources. The spec
  describes it as a fixed-capacity binary region large enough to hold either
  representation; its size is taken to be that of \<open>sockaddr_storage\<close>. All members of a
  union start at byte 0.
\<close>

definition sizeof_sa :: nat where "sizeof_sa = 128"

section \<open>Memory and strings\<close>

text \<open>\<open>memcpy (mem + off, src, length src)\<close> on a byte array.\<close>

definition memcpy :: "nat \<Rightarrow> byte list \<Rightarrow> byte list \<Rightarrow> byte list" where
  "memcpy off src mem = take off mem @ src @ drop (off + length src) mem"

text \<open>A 16-bit value in memory, in the byte order of the host (least significant byte first).\<close>

definition load16 :: "nat \<Rightarrow> byte list \<Rightarrow> 16 word" where
  "load16 off mem = push_bit 8 (ucast (mem ! Suc off)) OR ucast (mem ! off)"

definition store16 :: "nat \<Rightarrow> 16 word \<Rightarrow> byte list \<Rightarrow> byte list" where
  "store16 off v mem = memcpy off [ucast v, ucast (drop_bit 8 v)] mem"

text \<open>
  \<open>memcmp\<close>: the difference of the first pair of bytes that differ, read as unsigned
  values, 0 when the first \<open>n\<close> bytes agree. Every object compared has \<open>n\<close> bytes.
\<close>

fun memcmp :: "byte list \<Rightarrow> byte list \<Rightarrow> nat \<Rightarrow> int" where
  "memcmp (x # xs) (y # ys) (Suc n) =
     (if x = y then memcmp xs ys n else uint x - uint y)"
| "memcmp _ _ _ = 0"

text \<open>
  A \<open>std::string\<close> may hold any characters; \<open>data()\<close> and \<open>c_str()\<close> hand it to the C
  library as a NUL-terminated array, which ends at the first NUL character.
\<close>

definition NUL :: char where "NUL = CHR 0x00"

definition c_str :: "string \<Rightarrow> string" where
  "c_str s = takeWhile (\<lambda>c. c \<noteq> NUL) s"

text \<open>\<open>std::string::resize\<close>: cut, or pad with NUL characters.\<close>

definition resize :: "nat \<Rightarrow> string \<Rightarrow> string" where
  "resize n s = take n s @ replicate (n - length s) NUL"

text \<open>\<open>strcpy (buf, s)\<close>: the characters of \<open>s\<close> and a terminating NUL, over the start of \<open>buf\<close>.\<close>

definition strcpy :: "string \<Rightarrow> string \<Rightarrow> string" where
  "strcpy s buf = s @ [NUL] @ drop (Suc (length s)) buf"

text \<open>The conversions \<open>%u\<close> and \<open>%x\<close> of \<open>printf\<close>, and the decimal output of a stream, on
  the value of an unsigned integer.\<close>

definition digit_char :: "int \<Rightarrow> char" where
  "digit_char d = (if d < 10 then char_of (48 + d) else char_of (87 + d))"

function dec :: "int \<Rightarrow> string" where
  "dec n = (if n < 10 then [digit_char n] else dec (n div 10) @ [digit_char (n mod 10)])"
  by pat_completeness auto
termination
  by (relation "measure nat") auto

function hex :: "int \<Rightarrow> string" where
  "hex n = (if n < 16 then [digit_char n] else hex (n div 16) @ [digit_char (n mod 16)])"
  by pat_completeness auto
termination
  by (relation "measure nat") auto

declare dec.simps [simp del] hex.simps [simp del]

section \<open>The C library: \<open>inet_pton\<close> and \<open>inet_ntop\<close>\<close>

text \<open>
  The address literals are parsed and printed by the C library. The model follows the
  parser and printer of the BIND resolver, which the GNU C library uses: a dotted-decimal
  IPv4 literal has four decimal numbers of at most 255 without leading zeros.
\<close>

definition is_digit :: "char \<Rightarrow> bool" where
  "is_digit ch = (48 \<le> (of_char ch :: int) \<and> (of_char ch :: int) \<le> 57)"

text \<open>
  \<open>inet_pton4\<close>. \<open>tmp\<close> is the array of four bytes being filled, \<open>tp\<close> the index of the
  byte in progress, \<open>octets\<close> the number of numbers begun.
\<close>

fun inet_pton4_loop :: "string \<Rightarrow> byte list \<Rightarrow> nat \<Rightarrow> bool \<Rightarrow> nat \<Rightarrow> byte list option" where
  "inet_pton4_loop [] tmp tp saw_digit octets = (if octets < 4 then None else Some tmp)"
| "inet_pton4_loop (ch # src) tmp tp saw_digit octets =
     (if is_digit ch then
        (let new = uint (tmp ! tp) * 10 + (of_char ch - 48) in
         if saw_digit \<and> tmp ! tp = 0 then None
         else if new > 255 then None
         else if \<not> saw_digit then
           (if Suc octets > 4 then None
            else inet_pton4_loop src (tmp[tp := of_int new]) tp True (Suc octets))
         else inet_pton4_loop src (tmp[tp := of_int new]) tp saw_digit octets)
      else if ch = CHR ''.'' \<and> saw_digit then
        (if octets = 4 then None
         else inet_pton4_loop src (tmp[Suc tp := 0]) (Suc tp) False octets)
      else None)"

definition inet_pton4 :: "string \<Rightarrow> byte list option" where
  "inet_pton4 src = inet_pton4_loop src [0, 0, 0, 0] 0 False 0"

text \<open>\<open>inet_ntop4\<close>: \<open>sprintf ("%u.%u.%u.%u", src[0], src[1], src[2], src[3])\<close>.\<close>

definition inet_ntop4 :: "byte list \<Rightarrow> string" where
  "inet_ntop4 src =
     dec (uint (src ! 0)) @ ''.'' @ dec (uint (src ! 1)) @ ''.'' @
     dec (uint (src ! 2)) @ ''.'' @ dec (uint (src ! 3))"

text \<open>
  \<open>inet_pton6\<close>. \<open>tmp\<close> is the array of sixteen bytes being filled and \<open>tp\<close> the index
  of the next byte to write; \<open>colonp\<close> is where a \<open>::\<close> was seen, \<open>curtok\<close> the text from
  the start of the current group, \<open>val\<close> the value of the hexadecimal digits of the group
  read so far. The loop ends at the end of the text or, after a dotted-decimal tail, at
  its \<open>break\<close>.
\<close>

definition hex_digit_value :: "char \<Rightarrow> int" where
  "hex_digit_value ch =
     (if 48 \<le> (of_char ch :: int) \<and> (of_char ch :: int) \<le> 57 then of_char ch - 48
      else if 97 \<le> (of_char ch :: int) \<and> (of_char ch :: int) \<le> 102 then of_char ch - 97 + 10
      else if 65 \<le> (of_char ch :: int) \<and> (of_char ch :: int) \<le> 70 then of_char ch - 65 + 10
      else - 1)"

definition put16 :: "nat \<Rightarrow> int \<Rightarrow> byte list \<Rightarrow> byte list" where
  "put16 tp val tmp = tmp[tp := of_int (drop_bit 8 val), Suc tp := of_int val]"

fun inet_pton6_loop ::
  "string \<Rightarrow> byte list \<Rightarrow> nat \<Rightarrow> nat option \<Rightarrow> string \<Rightarrow> nat \<Rightarrow> int \<Rightarrow>
     (byte list \<times> nat \<times> nat option \<times> nat \<times> int) option" where
  "inet_pton6_loop [] tmp tp colonp curtok xdigits_seen val =
     Some (tmp, tp, colonp, xdigits_seen, val)"
| "inet_pton6_loop (ch # src) tmp tp colonp curtok xdigits_seen val =
     (if hex_digit_value ch \<ge> 0 then
        (if xdigits_seen = 4 then None
         else if push_bit 4 val OR hex_digit_value ch > 0xffff then None
         else inet_pton6_loop src tmp tp colonp curtok (Suc xdigits_seen)
                (push_bit 4 val OR hex_digit_value ch))
      else if ch = CHR '':'' then
        (if xdigits_seen = 0 then
           (if colonp \<noteq> None then None
            else inet_pton6_loop src tmp tp (Some tp) src xdigits_seen val)
         else if src = [] then None
         else if tp + 2 > 16 then None
         else inet_pton6_loop src (put16 tp val tmp) (tp + 2) colonp src 0 0)
      else if ch = CHR ''.'' \<and> tp + 4 \<le> 16 then
        (case inet_pton4 curtok of
           Some b \<Rightarrow> Some (memcpy tp b tmp, tp + 4, colonp, 0, val)
         | None \<Rightarrow> None)
      else None)"

text \<open>After the loop: the last group, then the expansion of \<open>::\<close> by \<open>memmove\<close> and \<open>memset\<close>.\<close>

definition inet_pton6_finish ::
  "byte list \<times> nat \<times> nat option \<times> nat \<times> int \<Rightarrow> byte list option" where
  "inet_pton6_finish r =
     (case r of (tmp, tp, colonp, xdigits_seen, val) \<Rightarrow>
        if xdigits_seen > 0 \<and> tp + 2 > 16 then None
        else
          (let tmp1 = (if xdigits_seen > 0 then put16 tp val tmp else tmp);
               tp1 = (if xdigits_seen > 0 then tp + 2 else tp)
           in case colonp of
                Some c \<Rightarrow>
                  if tp1 = 16 then None
                  else
                    (let n = tp1 - c;
                         tmp2 = memcpy (16 - n) (take n (drop c tmp1)) tmp1
                     in Some (memcpy c (replicate (16 - n - c) 0) tmp2))
              | None \<Rightarrow> if tp1 \<noteq> 16 then None else Some tmp1))"

definition inet_pton6 :: "string \<Rightarrow> byte list option" where
  "inet_pton6 src =
     (case src of
        [] \<Rightarrow> None
      | ch # rest \<Rightarrow>
          if ch = CHR '':'' \<and> (rest = [] \<or> hd rest \<noteq> CHR '':'') then None
          else
            (let src1 = (if ch = CHR '':'' then rest else src)
             in case inet_pton6_loop src1 (replicate 16 0) 0 None src1 0 0 of
                  None \<Rightarrow> None
                | Some r \<Rightarrow> inet_pton6_finish r))"

text \<open>
  \<open>inet_ntop6\<close>. The sixteen bytes are read as eight 16-bit words; the longest run of zero
  words (the first of the longest, and only a run of at least two) is printed as \<open>::\<close>. A
  run is a pair of its base and its length, with base \<open>-1\<close> for no run.
\<close>

definition words6 :: "byte list \<Rightarrow> int list" where
  "words6 src = map (\<lambda>i. push_bit 8 (uint (src ! (2 * i))) OR uint (src ! (2 * i + 1))) [0..<8]"

definition run_step :: "int list \<Rightarrow> (int \<times> int) \<times> (int \<times> int) \<Rightarrow> nat \<Rightarrow> (int \<times> int) \<times> (int \<times> int)" where
  "run_step words bc i =
     (case bc of (best, cur) \<Rightarrow>
        if words ! i = 0 then
          (if fst cur = -1 then (best, (int i, 1)) else (best, (fst cur, snd cur + 1)))
        else if fst cur \<noteq> -1 then
          ((if fst best = -1 \<or> snd cur > snd best then cur else best), (-1, snd cur))
        else (best, cur))"

definition best_run :: "int list \<Rightarrow> int \<times> int" where
  "best_run words =
     (case foldl (run_step words) ((-1, 0), (-1, 0)) [0..<8] of (best, cur) \<Rightarrow>
        let best1 = (if fst cur \<noteq> -1 \<and> (fst best = -1 \<or> snd cur > snd best) then cur else best)
        in if fst best1 \<noteq> -1 \<and> snd best1 < 2 then (-1, snd best1) else best1)"

fun inet_ntop6_loop :: "nat list \<Rightarrow> byte list \<Rightarrow> int list \<Rightarrow> int \<times> int \<Rightarrow> string" where
  "inet_ntop6_loop [] src words best = []"
| "inet_ntop6_loop (i # is) src words best =
     (if fst best \<noteq> -1 \<and> int i \<ge> fst best \<and> int i < fst best + snd best then
        (if int i = fst best then '':'' else []) @ inet_ntop6_loop is src words best
      else
        (if i \<noteq> 0 then '':'' else []) @
        (if i = 6 \<and> fst best = 0 \<and> (snd best = 6 \<or> (snd best = 5 \<and> words ! 5 = 0xffff))
         then inet_ntop4 (drop 12 src)
         else hex (words ! i) @ inet_ntop6_loop is src words best))"

definition inet_ntop6 :: "byte list \<Rightarrow> string" where
  "inet_ntop6 src =
     (let words = words6 src; best = best_run words
      in inet_ntop6_loop [0..<8] src words best @
         (if fst best \<noteq> -1 \<and> fst best + snd best = 8 then '':'' else []))"

text \<open>
  The two entry points. \<open>inet_pton\<close> returns 1 and the bytes it writes to its
  destination, 0 for a text that is no literal of the family, and \<open>-1\<close> (setting \<open>errno\<close>)
  for a family it does not know; on 0 and \<open>-1\<close> it writes nothing. \<open>inet_ntop\<close> returns
  the text, or an error code (a NULL return that sets \<open>errno\<close>) when the text and its
  terminating NUL do not fit in \<open>sz\<close> characters.
\<close>

definition inet_pton :: "sa_family_t \<Rightarrow> string \<Rightarrow> int \<times> byte list" where
  "inet_pton af src =
     (if af = AF_INET then (case inet_pton4 src of Some b \<Rightarrow> (1, b) | None \<Rightarrow> (0, []))
      else if af = AF_INET6 then (case inet_pton6 src of Some b \<Rightarrow> (1, b) | None \<Rightarrow> (0, []))
      else (-1, []))"

definition inet_ntop :: "sa_family_t \<Rightarrow> byte list \<Rightarrow> nat \<Rightarrow> error_t + string" where
  "inet_ntop af src sz =
     (if af = AF_INET then
        (if length (inet_ntop4 src) \<ge> sz then Inl ENOSPC else Inr (inet_ntop4 src))
      else if af = AF_INET6 then
        (if length (inet_ntop6 src) + 1 > sz then Inl ENOSPC else Inr (inet_ntop6 src))
      else Inl EAFNOSUPPORT)"

section \<open>The class \<open>socketaddr\<close>\<close>

text \<open>
  An object of the class is its one member, the union \<open>sa\<close>: a region of \<open>sizeof_sa\<close>
  bytes. The methods that can fail also assign \<open>errno\<close>, the error variable of the calling
  thread, so a method runs on the pair of the object and \<open>errno\<close> and returns its result
  with the new pair.
\<close>

record state =
  sa :: "byte list"
  errno :: error_t

text \<open>
  Modelled from the spec: \<open>cppsock::hton\<close> and \<open>cppsock::ntoh\<close> are declared in
  \<open>cppsock.hpp\<close>, which is not among the sources. The spec has the port stored in network
  (big-endian) byte order and converted to and from host order by the accessors; on the
  little-endian host both swap the two bytes.
\<close>

definition hton :: "16 word \<Rightarrow> 16 word" where
  "hton v = push_bit 8 v OR drop_bit 8 v"

definition ntoh :: "16 word \<Rightarrow> 16 word" where
  "ntoh v = push_bit 8 v OR drop_bit 8 v"

definition socketaddr_is :: "sa_family_t \<Rightarrow> string \<Rightarrow> error_t \<Rightarrow> bool \<times> error_t" where
  "socketaddr_is family ip e =
     (case inet_pton family (c_str ip) of (rc, b) \<Rightarrow>
        (rc = 1, if rc = -1 then EAFNOSUPPORT else e))"

definition is_ipv4 :: "string \<Rightarrow> error_t \<Rightarrow> bool \<times> error_t" where
  "is_ipv4 ip e = socketaddr_is AF_INET ip e"

definition is_ipv6 :: "string \<Rightarrow> error_t \<Rightarrow> bool \<times> error_t" where
  "is_ipv6 ip e = socketaddr_is AF_INET6 ip e"

text \<open>The default constructor: \<open>memset\<close> of the whole union.\<close>

definition socketaddr :: "byte list" where
  "socketaddr = replicate sizeof_sa 0"

definition data :: "state \<Rightarrow> byte list" where
  "data s = sa s"

definition set_family :: "sa_family_t \<Rightarrow> state \<Rightarrow> state" where
  "set_family fam s = s\<lparr>sa := store16 0 fam (replicate sizeof_sa 0)\<rparr>"

definition get_family :: "state \<Rightarrow> sa_family_t" where
  "get_family s = load16 0 (sa s)"

text \<open>
  The call \<open>inet_pton (family, ip.data (), addrptr)\<close> of \<open>set_addr\<close>, with \<open>addrptr\<close> at
  offset \<open>off\<close> of the union.
\<close>

definition set_addr_at :: "nat \<Rightarrow> string \<Rightarrow> state \<Rightarrow> error_t \<times> state" where
  "set_addr_at off ip s =
     (case inet_pton (load16 0 (sa s)) (c_str ip) of (rc, b) \<Rightarrow>
        let s1 = s\<lparr>sa := memcpy off b (sa s),
                   errno := (if rc = -1 then EAFNOSUPPORT else errno s)\<rparr>
        in if rc = 0 then (EINVAL, s1\<lparr>errno := EINVAL\<rparr>) else (0, s1))"

definition set_addr :: "string \<Rightarrow> state \<Rightarrow> error_t \<times> state" where
  "set_addr ip s =
     (if load16 0 (sa s) = AF_INET then set_addr_at off_sin_addr ip s
      else if load16 0 (sa s) = AF_INET6 then set_addr_at off_sin6_addr ip s
      else (EAFNOSUPPORT, s\<lparr>errno := EAFNOSUPPORT\<rparr>))"

definition set_port :: "16 word \<Rightarrow> state \<Rightarrow> error_t \<times> state" where
  "set_port port s =
     (if load16 0 (sa s) = AF_INET then (0, s\<lparr>sa := store16 off_sin_port (hton port) (sa s)\<rparr>)
      else if load16 0 (sa s) = AF_INET6 then (0, s\<lparr>sa := store16 off_sin6_port (hton port) (sa s)\<rparr>)
      else (EAFNOSUPPORT, s\<lparr>errno := EAFNOSUPPORT\<rparr>))"

text \<open>\<open>set (addr, port)\<close>: the part after the family has been chosen, then the whole.\<close>

definition set_addr_port :: "string \<Rightarrow> 16 word \<Rightarrow> state \<Rightarrow> error_t \<times> state" where
  "set_addr_port addr port s =
     (case set_addr addr s of (error, s1) \<Rightarrow>
        if error \<noteq> 0 then (error, s1)
        else (case set_port port s1 of (error, s2) \<Rightarrow>
          if error \<noteq> 0 then (error, s2) else (0, s2)))"

definition socketaddr_set :: "string \<Rightarrow> 16 word \<Rightarrow> state \<Rightarrow> error_t \<times> state" where
  "socketaddr_set addr port s =
     (case socketaddr_is AF_INET addr (errno s) of (v4, e1) \<Rightarrow>
        if v4 then set_addr_port addr port (set_family AF_INET (s\<lparr>errno := e1\<rparr>))
        else (case socketaddr_is AF_INET6 addr e1 of (v6, e2) \<Rightarrow>
          if v6 then set_addr_port addr port (set_family AF_INET6 (s\<lparr>errno := e2\<rparr>))
          else (EAFNOSUPPORT, s\<lparr>errno := EAFNOSUPPORT\<rparr>)))"

text \<open>
  \<open>set (const sockaddr *data)\<close>. The pointer \<open>data\<close> is either to the union of the object
  the method is called on (\<open>a.set (a.data ())\<close>), or to other memory, given by its bytes.
  What it points to is read when the code reads it: after \<open>set_family\<close> has zeroed the
  object.
\<close>

datatype sockaddr_ptr = This | Other "byte list"

fun pointee :: "sockaddr_ptr \<Rightarrow> state \<Rightarrow> byte list" where
  "pointee This s = sa s"
| "pointee (Other dat) s = dat"

definition set_sockaddr :: "sockaddr_ptr \<Rightarrow> state \<Rightarrow> state" where
  "set_sockaddr p s =
     (let s1 = set_family AF_UNSPEC s
      in if load16 0 (pointee p s1) = AF_INET
           then s1\<lparr>sa := memcpy 0 (take sizeof_sin (pointee p s1)) (sa s1)\<rparr>
         else if load16 0 (pointee p s1) = AF_INET6
           then s1\<lparr>sa := memcpy 0 (take sizeof_sin6 (pointee p s1)) (sa s1)\<rparr>
         else s1)"

text \<open>
  \<open>get_addr (std::string &buf)\<close>: \<open>buf\<close> goes in and comes out. The result of \<open>inet_ntop\<close>
  is not looked at.
\<close>

definition get_addr_at :: "nat \<Rightarrow> nat \<Rightarrow> string \<Rightarrow> state \<Rightarrow> error_t \<times> string \<times> state" where
  "get_addr_at off len buf s =
     (let buf1 = resize INET6_ADDRSTRLEN buf
      in case inet_ntop (load16 0 (sa s)) (take len (drop off (sa s))) INET6_ADDRSTRLEN of
           Inr text \<Rightarrow> (0, c_str (strcpy text buf1), s)
         | Inl e \<Rightarrow> (0, c_str buf1, s\<lparr>errno := e\<rparr>))"

definition get_addr_buf :: "string \<Rightarrow> state \<Rightarrow> error_t \<times> string \<times> state" where
  "get_addr_buf buf s =
     (if load16 0 (sa s) = AF_INET then get_addr_at off_sin_addr 4 buf s
      else if load16 0 (sa s) = AF_INET6 then get_addr_at off_sin6_addr 16 buf s
      else (EAFNOSUPPORT, buf, s\<lparr>errno := EAFNOSUPPORT\<rparr>))"

text \<open>\<open>get_port (uint16_t &port)\<close>: \<open>port\<close> goes in and comes out; \<open>errno\<close> is not assigned.\<close>

definition get_port_ref :: "16 word \<Rightarrow> state \<Rightarrow> error_t \<times> 16 word" where
  "get_port_ref port s =
     (if load16 0 (sa s) = AF_INET then (0, ntoh (load16 off_sin_port (sa s)))
      else if load16 0 (sa s) = AF_INET6 then (0, ntoh (load16 off_sin6_port (sa s)))
      else (EAFNOSUPPORT, port))"

definition get_addr :: "state \<Rightarrow> string \<times> state" where
  "get_addr s = (case get_addr_buf [] s of (error, ret, s1) \<Rightarrow> (ret, s1))"

definition get_port :: "state \<Rightarrow> 16 word" where
  "get_port s = (case get_port_ref 0 s of (error, ret) \<Rightarrow> ret)"

definition operator_eq :: "byte list \<Rightarrow> byte list \<Rightarrow> bool" where
  "operator_eq this other = (memcmp this other sizeof_sa = 0)"

definition operator_ne :: "byte list \<Rightarrow> byte list \<Rightarrow> bool" where
  "operator_ne this other = (memcmp this other sizeof_sa \<noteq> 0)"

definition operator_lt :: "byte list \<Rightarrow> byte list \<Rightarrow> bool" where
  "operator_lt this other = (memcmp this other sizeof_sa < 0)"


section \<open>Facts about memory\<close>

lemma length_memcpy:
  "off + length src \<le> length mem \<Longrightarrow> length (memcpy off src mem) = length mem"
  by (simp add: memcpy_def)

lemma nth_memcpy:
  "off + length src \<le> length mem \<Longrightarrow> i < length mem \<Longrightarrow>
   memcpy off src mem ! i =
     (if i < off then mem ! i else if i < off + length src then src ! (i - off) else mem ! i)"
  by (auto simp: memcpy_def nth_append)

lemma memcpy_Nil: "memcpy off [] mem = mem"
  by (simp add: memcpy_def)

lemma w16_join: "push_bit 8 (ucast (ucast (drop_bit 8 v) :: byte)) OR ucast (ucast v :: byte) = (v :: 16 word)"
  by (rule bit_word_eqI) (auto simp: bit_simps)

lemma load16_store16:
  "off + 2 \<le> length mem \<Longrightarrow> load16 off (store16 off v mem) = v"
  by (simp add: load16_def store16_def nth_memcpy w16_join)

lemma length_store16:
  "off + 2 \<le> length mem \<Longrightarrow> length (store16 off v mem) = length mem"
  by (simp add: store16_def length_memcpy)

lemma ntoh_hton: "ntoh (hton v) = v"
  unfolding ntoh_def hton_def
  by (rule bit_word_eqI) (auto simp: bit_simps)

lemma load16_zero: "Suc off < n \<Longrightarrow> load16 off (replicate n 0) = 0"
  by (simp add: load16_def)

lemma length_socketaddr: "length socketaddr = sizeof_sa"
  by (simp add: socketaddr_def)

section \<open>Facts about \<open>memcmp\<close>\<close>

lemma byte_diff_zero: "(uint (x :: byte) = uint y) = (x = y)"
  by (simp add: word_uint_eq_iff)

lemma memcmp_same: "memcmp a a n = 0"
proof (induction a arbitrary: n)
  case Nil
  then show ?case by simp
next
  case (Cons x xs)
  then show ?case by (cases n) simp_all
qed

lemma memcmp_swap: "memcmp b a n = - memcmp a b n"
  by (induction a b n rule: memcmp.induct) auto

lemma memcmp_zero_iff:
  "length a = n \<Longrightarrow> length b = n \<Longrightarrow> (memcmp a b n = 0) = (a = b)"
proof (induction a b n rule: memcmp.induct)
  case (1 x xs y ys n)
  then show ?case by (simp add: byte_diff_zero)
qed auto

lemma memcmp_less_trans:
  "length a = n \<Longrightarrow> length b = n \<Longrightarrow> length c = n \<Longrightarrow>
   memcmp a b n < 0 \<Longrightarrow> memcmp b c n < 0 \<Longrightarrow> memcmp a c n < 0"
proof (induction n arbitrary: a b c)
  case 0
  then show ?case by simp
next
  case (Suc n)
  obtain x xs where a: "a = x # xs" using Suc.prems(1) by (cases a) auto
  obtain y ys where b: "b = y # ys" using Suc.prems(2) by (cases b) auto
  obtain z zs where c: "c = z # zs" using Suc.prems(3) by (cases c) auto
  have len: "length xs = n" "length ys = n" "length zs = n"
    using Suc.prems(1-3) a b c by simp_all
  show ?case
  proof (cases "x = y")
    case xy: True
    show ?thesis
    proof (cases "y = z")
      case True
      with xy Suc.prems(4,5) a b c Suc.IH [OF len] show ?thesis by simp
    next
      case False
      with xy Suc.prems(5) a b c show ?thesis by simp
    qed
  next
    case xy: False
    show ?thesis
    proof (cases "y = z")
      case True
      with xy Suc.prems(4) a b c show ?thesis by simp
    next
      case False
      with xy Suc.prems(4,5) a b c have "uint x - uint z < 0" by simp
      moreover from this have "x \<noteq> z" by auto
      ultimately show ?thesis using a c by simp
    qed
  qed
qed

section \<open>Dotted-decimal literals: what is parsed is what is printed\<close>







lemma inet_pton4_loop_length:
  "inet_pton4_loop src tmp tp saw octets = Some b \<Longrightarrow> length b = length tmp"
  by (induction src arbitrary: tmp tp saw octets)
     (auto simp: Let_def split: if_splits)

lemma inet_pton4_length: "inet_pton4 src = Some b \<Longrightarrow> length b = 4"
  by (auto simp: inet_pton4_def dest: inet_pton4_loop_length)





section \<open>Strings of the C library\<close>


lemma takeWhile_NUL: "NUL \<notin> set s \<Longrightarrow> takeWhile (\<lambda>c. c \<noteq> NUL) (s @ NUL # rest) = s"
  by (induction s) auto

lemma c_str_strcpy: "NUL \<notin> set s \<Longrightarrow> c_str (strcpy s buf) = s"
  by (simp add: c_str_def strcpy_def takeWhile_NUL)

lemma c_str_no_NUL: "NUL \<notin> set (c_str s)"
  unfolding c_str_def by (induction s) auto



lemma digit_char_not_NUL: "0 \<le> d \<Longrightarrow> d < 16 \<Longrightarrow> NUL \<noteq> digit_char d"
proof
  assume d: "0 \<le> d" "d < 16" and "NUL = digit_char d"
  then have "(of_char NUL :: int) = of_char (digit_char d)" by simp
  with d show False by (simp add: NUL_def digit_char_def split: if_splits)
qed

lemma dec_no_NUL: "0 \<le> n \<Longrightarrow> NUL \<notin> set (dec n)"
proof (induction n rule: dec.induct)
  case (1 n)
  show ?case
  proof (cases "n < 10")
    case True
    with 1(2) show ?thesis by (simp add: dec.simps digit_char_not_NUL)
  next
    case False
    have m: "0 \<le> n mod 10" "n mod 10 < 16" by simp_all
    from 1(2) have "0 \<le> n div 10" by simp
    with False 1(1) have "NUL \<notin> set (dec (n div 10))" by simp
    with False m show ?thesis by (subst dec.simps) (simp add: digit_char_not_NUL)
  qed
qed

lemma hex_no_NUL: "0 \<le> n \<Longrightarrow> NUL \<notin> set (hex n)"
proof (induction n rule: hex.induct)
  case (1 n)
  show ?case
  proof (cases "n < 16")
    case True
    with 1(2) show ?thesis by (simp add: hex.simps digit_char_not_NUL)
  next
    case False
    have m: "0 \<le> n mod 16" "n mod 16 < 16" by simp_all
    from 1(2) have "0 \<le> n div 16" by simp
    with False 1(1) have "NUL \<notin> set (hex (n div 16))" by simp
    with False m show ?thesis by (subst hex.simps) (simp add: digit_char_not_NUL)
  qed
qed

lemma dec_length_1: "n < 10 \<Longrightarrow> length (dec n) = 1"
  by (simp add: dec.simps)

lemma dec_length_2: "n < 100 \<Longrightarrow> length (dec n) \<le> 2"
  by (subst dec.simps) (simp add: dec_length_1)

lemma dec_length_3: "n < 1000 \<Longrightarrow> length (dec n) \<le> 3"
  by (subst dec.simps) (simp add: dec_length_2 le_Suc_eq less_mult_imp_div_less)

lemma dec_byte_length: "length (dec (uint (x :: byte))) \<le> 3"
proof -
  have "uint x < 256" using uint_bounded [of x] by simp
  then show ?thesis by (intro dec_length_3) simp
qed

lemma hex_length_1: "n < 16 \<Longrightarrow> length (hex n) = 1"
  by (simp add: hex.simps)

lemma hex_length_2: "n < 256 \<Longrightarrow> length (hex n) \<le> 2"
  by (subst hex.simps) (simp add: hex_length_1)

lemma hex_length_3: "n < 4096 \<Longrightarrow> length (hex n) \<le> 3"
  by (subst hex.simps) (simp add: hex_length_2 less_mult_imp_div_less)

lemma hex_length_4: "n < 65536 \<Longrightarrow> length (hex n) \<le> 4"
  by (subst hex.simps) (simp add: hex_length_3 less_mult_imp_div_less)

lemma inet_ntop4_length: "length (inet_ntop4 src) \<le> 15"
  using dec_byte_length [of "src ! 0"] dec_byte_length [of "src ! 1"]
    dec_byte_length [of "src ! 2"] dec_byte_length [of "src ! 3"]
  by (simp add: inet_ntop4_def)

lemma inet_ntop4_no_NUL: "NUL \<notin> set (inet_ntop4 src)"
  by (simp add: inet_ntop4_def dec_no_NUL) (simp add: NUL_def)

section \<open>Facts about \<open>inet_pton6\<close>\<close>

lemma length_put16: "length (put16 tp val tmp) = length tmp"
  by (simp add: put16_def)

lemma inet_pton6_loop_inv:
  "inet_pton6_loop src tmp tp colonp curtok xd val = Some (tmp', tp', colonp', xd', val') \<Longrightarrow>
   length tmp = 16 \<Longrightarrow> tp \<le> 16 \<Longrightarrow> (\<forall>c. colonp = Some c \<longrightarrow> c \<le> tp) \<Longrightarrow>
   length tmp' = 16 \<and> tp' \<le> 16 \<and> (\<forall>c. colonp' = Some c \<longrightarrow> c \<le> tp')"
proof (induction src arbitrary: tmp tp colonp curtok xd val)
  case Nil
  then show ?case by simp
next
  case (Cons ch src)
  show ?case
  proof (cases "hex_digit_value ch \<ge> 0")
    case True
    with Cons.prems(1)
    have "inet_pton6_loop src tmp tp colonp curtok (Suc xd)
            (push_bit 4 val OR hex_digit_value ch) = Some (tmp', tp', colonp', xd', val')"
      by (simp split: if_splits)
    from Cons.IH [OF this Cons.prems(2,3,4)] show ?thesis .
  next
    case None: False
    show ?thesis
    proof (cases "ch = CHR '':''")
      case colon: True
      show ?thesis
      proof (cases "xd = 0")
        case True
        with Cons.prems(1) None colon
        have run: "inet_pton6_loop src tmp tp (Some tp) src xd val = Some (tmp', tp', colonp', xd', val')"
          by (simp split: if_splits)
        show ?thesis by (rule Cons.IH [OF run Cons.prems(2,3)]) simp
      next
        case False
        with Cons.prems(1) None colon
        have tp: "tp + 2 \<le> 16"
          and run: "inet_pton6_loop src (put16 tp val tmp) (tp + 2) colonp src 0 0 =
                      Some (tmp', tp', colonp', xd', val')"
          by (simp_all split: if_splits)
        show ?thesis
          using Cons.prems(2,4) tp by (intro Cons.IH [OF run]) (auto simp: length_put16)
      qed
    next
      case False
      with Cons.prems(1) None obtain b where b: "inet_pton4 curtok = Some b" and tp: "tp + 4 \<le> 16"
        and res: "tmp' = memcpy tp b tmp" "tp' = tp + 4" "colonp' = colonp"
        by (auto split: if_splits option.splits)
      from b have "length b = 4" by (rule inet_pton4_length)
      with Cons.prems(2,4) tp res show ?thesis by (auto simp: length_memcpy)
    qed
  qed
qed

lemma inet_pton6_finish_length:
  assumes "inet_pton6_finish (tmp, tp, colonp, xd, val) = Some b"
    and "length tmp = 16" and "tp \<le> 16" and "\<forall>c. colonp = Some c \<longrightarrow> c \<le> tp"
  shows "length b = 16"
  using assms
  by (auto simp: inet_pton6_finish_def Let_def length_put16 memcpy_def
           split: if_splits option.splits)

lemma inet_pton6_length: "inet_pton6 src = Some b \<Longrightarrow> length b = 16"
proof -
  assume a: "inet_pton6 src = Some b"
  then obtain src1 r where run: "inet_pton6_loop src1 (replicate 16 0) 0 None src1 0 0 = Some r"
    and fin: "inet_pton6_finish r = Some b"
    by (auto simp: inet_pton6_def Let_def simp del: inet_pton6_loop.simps
          split: list.splits if_splits option.splits)
  obtain tmp tp colonp xd val where r: "r = (tmp, tp, colonp, xd, val)" by (cases r)
  from inet_pton6_loop_inv [OF run [unfolded r]]
  have "length tmp = 16 \<and> tp \<le> 16 \<and> (\<forall>c. colonp = Some c \<longrightarrow> c \<le> tp)" by simp
  with fin r show ?thesis by (auto intro: inet_pton6_finish_length)
qed







section \<open>Facts about \<open>inet_ntop6\<close>\<close>

lemma upt_0_8: "[0..<8] = [0, 1, 2, 3, 4, 5, 6, 7]"
  by (simp add: upt_rec)

lemma word16_less: "push_bit 8 (uint (a :: byte)) OR uint (b :: byte) < 65536"
proof -
  have a: "uint a < 256" using uint_bounded [of a] by simp
  have b: "uint b < 256" using uint_bounded [of b] by simp
  from a have pa: "push_bit 8 (uint a) < 2 ^ 16" by (simp add: push_bit_eq_mult)
  from b have pb: "uint b < 2 ^ 16" by simp
  have "0 \<le> push_bit 8 (uint a)" by simp
  from OR_upper [OF this pa pb] show ?thesis by simp
qed

lemma words6_less: "i < 8 \<Longrightarrow> words6 src ! i < 65536"
  by (simp add: words6_def word16_less del: upt_Suc)

lemma colon_not_NUL: "NUL \<noteq> CHR '':''" "NUL \<noteq> CHR ''.''"
  by (simp_all add: NUL_def)

lemma inet_ntop6_loop_no_NUL:
  "\<forall>i\<in>set is. 0 \<le> words ! i \<Longrightarrow> NUL \<notin> set (inet_ntop6_loop is src words best)"
  by (induction "is") (simp_all add: hex_no_NUL inet_ntop4_no_NUL colon_not_NUL)

lemma words6_nonneg: "i < 8 \<Longrightarrow> 0 \<le> words6 src ! i"
  by (simp add: words6_def del: upt_Suc)

lemma inet_ntop6_no_NUL: "NUL \<notin> set (inet_ntop6 src)"
proof -
  have "\<forall>i\<in>set [0..<8]. 0 \<le> words6 src ! i" by (simp add: words6_nonneg)
  then show ?thesis
    by (simp add: inet_ntop6_def Let_def inet_ntop6_loop_no_NUL colon_not_NUL
          del: inet_ntop6_loop.simps)
qed

lemma inet_ntop6_loop_length:
  "\<not> (fst best = 0 \<and> (snd best = 6 \<or> (snd best = 5 \<and> words ! 5 = 0xffff))) \<Longrightarrow>
   \<forall>i\<in>set is. words ! i < 65536 \<Longrightarrow>
   length (inet_ntop6_loop is src words best) \<le> 5 * length is"
proof (induction "is")
  case Nil
  then show ?case by simp
next
  case (Cons i "is")
  then have IH: "length (inet_ntop6_loop is src words best) \<le> 5 * length is" by simp
  from Cons.prems(2) have "length (hex (words ! i)) \<le> 4" by (simp add: hex_length_4)
  with IH Cons.prems(1) show ?case by auto
qed

lemma inet_ntop6_loop_length_v4:
  assumes "fst best = 0" and "snd best = 6 \<or> (snd best = 5 \<and> words ! 5 = 0xffff)"
    and "words ! 5 < 65536"
  shows "length (inet_ntop6_loop [0, 1, 2, 3, 4, 5, 6, 7] src words best) \<le> 22"
proof -
  obtain base len where best: "best = (base, len)" by (cases best)
  have h: "length (hex (words ! 5)) \<le> 4" using assms(3) by (simp add: hex_length_4)
  have n: "length (inet_ntop4 (drop 12 src)) \<le> 15" by (rule inet_ntop4_length)
  from assms(1,2) best have c: "len = 6 \<or> (len = 5 \<and> words ! 5 = 0xffff)" and base: "base = 0"
    by simp_all
  from c show ?thesis
  proof
    assume "len = 6"
    with base best n show ?thesis by simp
  next
    assume "len = 5 \<and> words ! 5 = 0xffff"
    with base best n h show ?thesis by simp
  qed
qed

lemma inet_ntop6_length: "length (inet_ntop6 src) \<le> 45"
proof -
  let ?w = "words6 src" and ?b = "best_run (words6 src)"
  have w: "\<forall>i\<in>set [0, 1, 2, 3, 4, 5, 6, 7]. ?w ! i < 65536"
    by (simp add: words6_less)
  have "length (inet_ntop6_loop [0, 1, 2, 3, 4, 5, 6, 7] src ?w ?b) \<le> 40"
  proof (cases "fst ?b = 0 \<and> (snd ?b = 6 \<or> (snd ?b = 5 \<and> ?w ! 5 = 0xffff))")
    case True
    then have "length (inet_ntop6_loop [0, 1, 2, 3, 4, 5, 6, 7] src ?w ?b) \<le> 22"
      by (intro inet_ntop6_loop_length_v4) (simp_all add: words6_less)
    then show ?thesis by simp
  next
    case False
    from inet_ntop6_loop_length [OF False w] show ?thesis by simp
  qed
  then show ?thesis by (simp add: inet_ntop6_def Let_def upt_0_8 del: inet_ntop6_loop.simps)
qed

section \<open>The methods, case by case\<close>

lemma families_distinct:
  "AF_INET \<noteq> AF_INET6" "AF_INET \<noteq> AF_UNSPEC" "AF_INET6 \<noteq> AF_UNSPEC"
  "AF_INET6 \<noteq> AF_INET" "AF_UNSPEC \<noteq> AF_INET" "AF_UNSPEC \<noteq> AF_INET6"
  by (simp_all add: AF_INET_def AF_INET6_def AF_UNSPEC_def)

lemma inet_pton_AF_INET:
  "inet_pton AF_INET src = (case inet_pton4 src of Some b \<Rightarrow> (1, b) | None \<Rightarrow> (0, []))"
  by (simp add: inet_pton_def)

lemma inet_pton_AF_INET6:
  "inet_pton AF_INET6 src = (case inet_pton6 src of Some b \<Rightarrow> (1, b) | None \<Rightarrow> (0, []))"
  by (simp add: inet_pton_def families_distinct)

lemma socketaddr_is_AF_INET:
  "socketaddr_is AF_INET ip e = (inet_pton4 (c_str ip) \<noteq> None, e)"
  by (simp add: socketaddr_is_def inet_pton_AF_INET split: option.splits)

lemma socketaddr_is_AF_INET6:
  "socketaddr_is AF_INET6 ip e = (inet_pton6 (c_str ip) \<noteq> None, e)"
  by (simp add: socketaddr_is_def inet_pton_AF_INET6 split: option.splits)

lemma sa_set_family: "sa (set_family fam s) = store16 0 fam (replicate sizeof_sa 0)"
  by (simp add: set_family_def)

lemma errno_set_family: "errno (set_family fam s) = errno s"
  by (simp add: set_family_def)

lemma length_set_family: "length (sa (set_family fam s)) = sizeof_sa"
  by (simp add: set_family_def length_store16 sizeof_sa_def)

lemma family_set_family: "load16 0 (sa (set_family fam s)) = fam"
  by (simp add: set_family_def load16_store16 sizeof_sa_def)

lemma store16_AF_UNSPEC: "store16 0 AF_UNSPEC (replicate sizeof_sa 0) = replicate sizeof_sa 0"
proof -
  have "replicate sizeof_sa (0 :: byte) = 0 # 0 # replicate (sizeof_sa - 2) 0"
    by (simp add: sizeof_sa_def numeral_eq_Suc)
  then show ?thesis by (simp add: store16_def memcpy_def AF_UNSPEC_def)
qed

lemma load16_memcpy_other:
  "off + 2 \<le> off' \<Longrightarrow> off' + length src \<le> length mem \<Longrightarrow>
   load16 off (memcpy off' src mem) = load16 off mem"
  by (simp add: load16_def nth_memcpy)

lemma load16_store16_other:
  "off + 2 \<le> off' \<Longrightarrow> off' + 2 \<le> length mem \<Longrightarrow>
   load16 off (store16 off' v mem) = load16 off mem"
  by (simp add: store16_def load16_memcpy_other)

lemma take_drop_memcpy:
  "off + length src \<le> length mem \<Longrightarrow> take (length src) (drop off (memcpy off src mem)) = src"
  by (simp add: memcpy_def)

lemma take_drop_memcpy_other:
  "off' + length src \<le> off \<Longrightarrow> off \<le> length mem \<Longrightarrow>
   take n (drop off (memcpy off' src mem)) = take n (drop off mem)"
  by (simp add: memcpy_def)

lemma set_addr_other:
  "load16 0 (sa s) \<noteq> AF_INET \<Longrightarrow> load16 0 (sa s) \<noteq> AF_INET6 \<Longrightarrow>
   set_addr ip s = (EAFNOSUPPORT, s\<lparr>errno := EAFNOSUPPORT\<rparr>)"
  by (simp add: set_addr_def)

lemma set_addr_v4:
  "load16 0 (sa s) = AF_INET \<Longrightarrow> inet_pton4 (c_str ip) = Some b \<Longrightarrow>
   set_addr ip s = (0, s\<lparr>sa := memcpy off_sin_addr b (sa s)\<rparr>)"
  by (simp add: set_addr_def set_addr_at_def inet_pton_AF_INET)

lemma set_addr_v4_invalid:
  "load16 0 (sa s) = AF_INET \<Longrightarrow> inet_pton4 (c_str ip) = None \<Longrightarrow>
   set_addr ip s = (EINVAL, s\<lparr>errno := EINVAL\<rparr>)"
  by (simp add: set_addr_def set_addr_at_def inet_pton_AF_INET memcpy_Nil)

lemma set_addr_v6:
  "load16 0 (sa s) = AF_INET6 \<Longrightarrow> inet_pton6 (c_str ip) = Some b \<Longrightarrow>
   set_addr ip s = (0, s\<lparr>sa := memcpy off_sin6_addr b (sa s)\<rparr>)"
  by (simp add: set_addr_def set_addr_at_def inet_pton_AF_INET6 families_distinct)

lemma set_addr_v6_invalid:
  "load16 0 (sa s) = AF_INET6 \<Longrightarrow> inet_pton6 (c_str ip) = None \<Longrightarrow>
   set_addr ip s = (EINVAL, s\<lparr>errno := EINVAL\<rparr>)"
  by (simp add: set_addr_def set_addr_at_def inet_pton_AF_INET6 families_distinct memcpy_Nil)

lemma set_port_v4:
  "load16 0 (sa s) = AF_INET \<Longrightarrow>
   set_port port s = (0, s\<lparr>sa := store16 off_sin_port (hton port) (sa s)\<rparr>)"
  by (simp add: set_port_def)

lemma set_port_v6:
  "load16 0 (sa s) = AF_INET6 \<Longrightarrow>
   set_port port s = (0, s\<lparr>sa := store16 off_sin6_port (hton port) (sa s)\<rparr>)"
  by (simp add: set_port_def families_distinct)

lemma set_port_other:
  "load16 0 (sa s) \<noteq> AF_INET \<Longrightarrow> load16 0 (sa s) \<noteq> AF_INET6 \<Longrightarrow>
   set_port port s = (EAFNOSUPPORT, s\<lparr>errno := EAFNOSUPPORT\<rparr>)"
  by (simp add: set_port_def)

text \<open>What \<open>set (addr, port)\<close> leaves in the object, for each family.\<close>

lemma socketaddr_set_v4:
  assumes "inet_pton4 (c_str addr) = Some b"
  shows "socketaddr_set addr port s =
    (0, \<lparr>sa = store16 off_sin_port (hton port)
               (memcpy off_sin_addr b (store16 0 AF_INET (replicate sizeof_sa 0))),
         errno = errno s\<rparr>)"
proof -
  let ?s1 = "set_family AF_INET s"
  let ?s2 = "?s1\<lparr>sa := memcpy off_sin_addr b (sa ?s1)\<rparr>"
  have lb: "length b = 4" using assms by (rule inet_pton4_length)
  have a: "set_addr addr ?s1 = (0, ?s2)"
    using assms by (intro set_addr_v4) (simp_all add: family_set_family)
  have f2: "load16 0 (sa ?s2) = AF_INET"
    using lb by (simp add: load16_memcpy_other off_sin_addr_def length_set_family sizeof_sa_def
        family_set_family)
  have p: "set_port port ?s2 = (0, ?s2\<lparr>sa := store16 off_sin_port (hton port) (sa ?s2)\<rparr>)"
    using f2 by (rule set_port_v4)
  have "socketaddr_set addr port s = set_addr_port addr port ?s1"
    using assms by (simp add: socketaddr_set_def socketaddr_is_AF_INET)
  also have "\<dots> = (0, ?s2\<lparr>sa := store16 off_sin_port (hton port) (sa ?s2)\<rparr>)"
    by (simp add: set_addr_port_def a p)
  finally show ?thesis by (simp add: set_family_def)
qed

lemma socketaddr_set_v6:
  assumes "inet_pton4 (c_str addr) = None" and "inet_pton6 (c_str addr) = Some b"
  shows "socketaddr_set addr port s =
    (0, \<lparr>sa = store16 off_sin6_port (hton port)
               (memcpy off_sin6_addr b (store16 0 AF_INET6 (replicate sizeof_sa 0))),
         errno = errno s\<rparr>)"
proof -
  let ?s1 = "set_family AF_INET6 s"
  let ?s2 = "?s1\<lparr>sa := memcpy off_sin6_addr b (sa ?s1)\<rparr>"
  have lb: "length b = 16" using assms(2) by (rule inet_pton6_length)
  have a: "set_addr addr ?s1 = (0, ?s2)"
    using assms(2) by (intro set_addr_v6) (simp_all add: family_set_family)
  have f2: "load16 0 (sa ?s2) = AF_INET6"
    using lb by (simp add: load16_memcpy_other off_sin6_addr_def length_set_family sizeof_sa_def
        family_set_family)
  have p: "set_port port ?s2 = (0, ?s2\<lparr>sa := store16 off_sin6_port (hton port) (sa ?s2)\<rparr>)"
    using f2 by (rule set_port_v6)
  have "socketaddr_set addr port s = set_addr_port addr port ?s1"
    using assms by (simp add: socketaddr_set_def socketaddr_is_AF_INET socketaddr_is_AF_INET6)
  also have "\<dots> = (0, ?s2\<lparr>sa := store16 off_sin6_port (hton port) (sa ?s2)\<rparr>)"
    by (simp add: set_addr_port_def a p)
  finally show ?thesis by (simp add: set_family_def)
qed

lemma socketaddr_set_neither:
  assumes "inet_pton4 (c_str addr) = None" and "inet_pton6 (c_str addr) = None"
  shows "socketaddr_set addr port s = (EAFNOSUPPORT, s\<lparr>errno := EAFNOSUPPORT\<rparr>)"
  using assms
  by (simp add: socketaddr_set_def socketaddr_is_AF_INET socketaddr_is_AF_INET6)

lemmas layout_defs = sizeof_sa_def sizeof_sin_def sizeof_sin6_def off_sin_port_def
  off_sin_addr_def off_sin6_port_def off_sin6_addr_def

lemma sin_image:
  assumes "length b = 4"
    and A_def: "A = store16 off_sin_port p (memcpy off_sin_addr b (store16 0 fam (replicate sizeof_sa 0)))"
  shows "length A = sizeof_sa" and "load16 0 A = fam" and "load16 off_sin_port A = p"
    and "take 4 (drop off_sin_addr A) = b"
    and "take sizeof_sin A @ replicate (sizeof_sa - sizeof_sin) 0 = A"
proof -
  let ?z = "store16 0 fam (replicate sizeof_sa 0)"
  let ?m = "memcpy off_sin_addr b ?z"
  have lz: "length ?z = 128" by (simp add: length_store16 layout_defs)
  have lm: "length ?m = 128" using assms(1) lz by (simp add: length_memcpy layout_defs)
  show lA: "length A = sizeof_sa" using lm by (simp add: A_def length_store16 layout_defs)
  show "load16 0 A = fam"
    using lz lm assms(1)
    by (simp add: A_def load16_store16_other load16_memcpy_other load16_store16 layout_defs)
  show "load16 off_sin_port A = p" using lm by (simp add: A_def load16_store16 layout_defs)
  have "take 4 (drop off_sin_addr A) = take 4 (drop off_sin_addr ?m)"
    using lm by (simp add: A_def store16_def take_drop_memcpy_other layout_defs)
  also have "\<dots> = b"
    using take_drop_memcpy [of off_sin_addr b ?z] assms(1) lz by (simp add: layout_defs)
  finally show "take 4 (drop off_sin_addr A) = b" .
  show "take sizeof_sin A @ replicate (sizeof_sa - sizeof_sin) 0 = A"
  proof (rule nth_equalityI)
    show "length (take sizeof_sin A @ replicate (sizeof_sa - sizeof_sin) 0) = length A"
      using lA by (simp add: layout_defs)
  next
    fix i assume "i < length (take sizeof_sin A @ replicate (sizeof_sa - sizeof_sin) 0)"
    then have i: "i < 128" using lA by (simp add: layout_defs)
    show "(take sizeof_sin A @ replicate (sizeof_sa - sizeof_sin) 0) ! i = A ! i"
    proof (cases "i < 16")
      case True
      then show ?thesis using lA by (simp add: nth_append layout_defs)
    next
      case False
      then have "A ! i = 0"
        using i lz lm assms(1)
        by (simp add: A_def store16_def nth_memcpy layout_defs)
      with False i lA show ?thesis by (simp add: nth_append layout_defs)
    qed
  qed
qed

lemma sin6_image:
  assumes "length b = 16"
    and A_def: "A = store16 off_sin6_port p (memcpy off_sin6_addr b (store16 0 fam (replicate sizeof_sa 0)))"
  shows "length A = sizeof_sa" and "load16 0 A = fam" and "load16 off_sin6_port A = p"
    and "take 16 (drop off_sin6_addr A) = b"
    and "take sizeof_sin6 A @ replicate (sizeof_sa - sizeof_sin6) 0 = A"
proof -
  let ?z = "store16 0 fam (replicate sizeof_sa 0)"
  let ?m = "memcpy off_sin6_addr b ?z"
  have lz: "length ?z = 128" by (simp add: length_store16 layout_defs)
  have lm: "length ?m = 128" using assms(1) lz by (simp add: length_memcpy layout_defs)
  show lA: "length A = sizeof_sa" using lm by (simp add: A_def length_store16 layout_defs)
  show "load16 0 A = fam"
    using lz lm assms(1)
    by (simp add: A_def load16_store16_other load16_memcpy_other load16_store16 layout_defs)
  show "load16 off_sin6_port A = p" using lm by (simp add: A_def load16_store16 layout_defs)
  have "take 16 (drop off_sin6_addr A) = take 16 (drop off_sin6_addr ?m)"
    using lm by (simp add: A_def store16_def take_drop_memcpy_other layout_defs)
  also have "\<dots> = b"
    using take_drop_memcpy [of off_sin6_addr b ?z] assms(1) lz by (simp add: layout_defs)
  finally show "take 16 (drop off_sin6_addr A) = b" .
  show "take sizeof_sin6 A @ replicate (sizeof_sa - sizeof_sin6) 0 = A"
  proof (rule nth_equalityI)
    show "length (take sizeof_sin6 A @ replicate (sizeof_sa - sizeof_sin6) 0) = length A"
      using lA by (simp add: layout_defs)
  next
    fix i assume "i < length (take sizeof_sin6 A @ replicate (sizeof_sa - sizeof_sin6) 0)"
    then have i: "i < 128" using lA by (simp add: layout_defs)
    show "(take sizeof_sin6 A @ replicate (sizeof_sa - sizeof_sin6) 0) ! i = A ! i"
    proof (cases "i < 28")
      case True
      then show ?thesis using lA by (simp add: nth_append layout_defs)
    next
      case False
      then have "A ! i = 0"
        using i lz lm assms(1)
        by (simp add: A_def store16_def nth_memcpy layout_defs)
      with False i lA show ?thesis by (simp add: nth_append layout_defs)
    qed
  qed
qed

lemma get_addr_buf_v4:
  assumes "load16 0 (sa s) = AF_INET"
  shows "get_addr_buf buf s = (0, inet_ntop4 (take 4 (drop off_sin_addr (sa s))), s)"
proof -
  have "length (inet_ntop4 (take 4 (drop off_sin_addr (sa s)))) < 46"
    using inet_ntop4_length [of "take 4 (drop off_sin_addr (sa s))"] by simp
  then show ?thesis
    using assms
    by (simp add: get_addr_buf_def get_addr_at_def inet_ntop_def INET6_ADDRSTRLEN_def
          c_str_strcpy inet_ntop4_no_NUL)
qed

lemma get_addr_buf_v6:
  assumes "load16 0 (sa s) = AF_INET6"
  shows "get_addr_buf buf s = (0, inet_ntop6 (take 16 (drop off_sin6_addr (sa s))), s)"
proof -
  have "length (inet_ntop6 (take 16 (drop off_sin6_addr (sa s)))) < 46"
    using inet_ntop6_length [of "take 16 (drop off_sin6_addr (sa s))"] by simp
  then show ?thesis
    using assms
    by (simp add: get_addr_buf_def get_addr_at_def inet_ntop_def INET6_ADDRSTRLEN_def
          c_str_strcpy inet_ntop6_no_NUL families_distinct)
qed

lemma get_addr_buf_other:
  "load16 0 (sa s) \<noteq> AF_INET \<Longrightarrow> load16 0 (sa s) \<noteq> AF_INET6 \<Longrightarrow>
   get_addr_buf buf s = (EAFNOSUPPORT, buf, s\<lparr>errno := EAFNOSUPPORT\<rparr>)"
  by (simp add: get_addr_buf_def)

section \<open>Comparison\<close>

text \<open>
  C2: on objects of the class (regions of \<open>sizeof_sa\<close> bytes), \<open>operator==\<close> is reflexive,
  symmetric and transitive, and is equality of the bytes; \<open>operator!=\<close> is its negation;
  \<open>operator<\<close> is irreflexive, transitive and asymmetric, and for every pair exactly one of
  \<open>a < b\<close>, \<open>b < a\<close> and \<open>a == b\<close> holds.
\<close>

theorem C2_order:
  assumes "length a = sizeof_sa" and "length b = sizeof_sa" and "length c = sizeof_sa"
  shows "operator_eq a a \<and>
         (operator_eq a b \<longrightarrow> operator_eq b a) \<and>
         (operator_eq a b \<and> operator_eq b c \<longrightarrow> operator_eq a c) \<and>
         operator_eq a b = (a = b) \<and>
         operator_ne a b = (\<not> operator_eq a b) \<and>
         \<not> operator_lt a a \<and>
         (operator_lt a b \<and> operator_lt b c \<longrightarrow> operator_lt a c) \<and>
         \<not> (operator_lt a b \<and> operator_lt b a) \<and>
         \<not> (operator_lt a b \<and> operator_eq a b) \<and>
         \<not> (operator_lt b a \<and> operator_eq a b) \<and>
         (operator_lt a b \<or> operator_lt b a \<or> operator_eq a b)"
proof -
  have eq: "operator_eq a b = (a = b)" "operator_eq b c = (b = c)" "operator_eq a c = (a = c)"
    "operator_eq b a = (b = a)"
    using assms by (simp_all add: operator_eq_def memcmp_zero_iff)
  have refl: "operator_eq a a" by (simp add: operator_eq_def memcmp_same)
  have ne: "operator_ne a b = (\<not> operator_eq a b)" by (simp add: operator_ne_def operator_eq_def)
  have irrefl: "\<not> operator_lt a a" by (simp add: operator_lt_def memcmp_same)
  have trans: "operator_lt a b \<and> operator_lt b c \<longrightarrow> operator_lt a c"
    using assms memcmp_less_trans [of a sizeof_sa b c] by (auto simp: operator_lt_def)
  have sw: "memcmp b a sizeof_sa = - memcmp a b sizeof_sa" by (rule memcmp_swap)
  have asym: "\<not> (operator_lt a b \<and> operator_lt b a)" using sw by (simp add: operator_lt_def)
  have z: "(memcmp a b sizeof_sa = 0) = (a = b)" using assms by (simp add: memcmp_zero_iff)
  have d1: "\<not> (operator_lt a b \<and> operator_eq a b)" by (auto simp: operator_lt_def operator_eq_def)
  have d2: "\<not> (operator_lt b a \<and> operator_eq a b)" using sw by (auto simp: operator_lt_def operator_eq_def)
  have tot: "operator_lt a b \<or> operator_lt b a \<or> operator_eq a b"
    using sw by (auto simp: operator_lt_def operator_eq_def)
  show ?thesis using eq refl ne irrefl trans asym d1 d2 tot by blast
qed

theorem C2_order_witness:
  "length socketaddr = sizeof_sa \<and>
   length (store16 0 AF_INET socketaddr) = sizeof_sa \<and>
   length (store16 0 AF_INET6 socketaddr) = sizeof_sa \<and>
   operator_lt socketaddr (store16 0 AF_INET socketaddr) \<and>
   operator_lt (store16 0 AF_INET socketaddr) (store16 0 AF_INET6 socketaddr) \<and>
   operator_lt socketaddr (store16 0 AF_INET6 socketaddr) \<and>
   \<not> operator_lt (store16 0 AF_INET socketaddr) socketaddr \<and>
   \<not> operator_eq socketaddr (store16 0 AF_INET socketaddr)"
proof -
  have l1: "length socketaddr = sizeof_sa" by (rule length_socketaddr)
  have l2: "length (store16 0 AF_INET socketaddr) = sizeof_sa"
    by (simp add: length_store16 socketaddr_def sizeof_sa_def)
  have l3: "length (store16 0 AF_INET6 socketaddr) = sizeof_sa"
    by (simp add: length_store16 socketaddr_def sizeof_sa_def)
  have lt1: "operator_lt socketaddr (store16 0 AF_INET socketaddr)" by code_simp
  have lt2: "operator_lt (store16 0 AF_INET socketaddr) (store16 0 AF_INET6 socketaddr)" by code_simp
  show ?thesis using l1 l2 l3 lt1 lt2 C2_order [OF l1 l2 l3] by blast
qed

section \<open>Loading a native structure, and the default object\<close>

lemma sa_set_family_UNSPEC: "sa (set_family AF_UNSPEC s) = replicate sizeof_sa 0"
  by (simp add: sa_set_family store16_AF_UNSPEC)

lemma set_sockaddr_v4:
  assumes "load16 0 dat = AF_INET" and "sizeof_sin \<le> length dat"
  shows "sa (set_sockaddr (Other dat) s) =
           take sizeof_sin dat @ replicate (sizeof_sa - sizeof_sin) 0"
  using assms
  by (simp add: set_sockaddr_def Let_def sa_set_family_UNSPEC)
     (simp add: memcpy_def layout_defs)

lemma set_sockaddr_v6:
  assumes "load16 0 dat = AF_INET6" and "sizeof_sin6 \<le> length dat"
  shows "sa (set_sockaddr (Other dat) s) =
           take sizeof_sin6 dat @ replicate (sizeof_sa - sizeof_sin6) 0"
  using assms
  by (simp add: set_sockaddr_def Let_def sa_set_family_UNSPEC families_distinct)
     (simp add: memcpy_def layout_defs)

lemma set_sockaddr_other:
  assumes "load16 0 dat \<noteq> AF_INET" and "load16 0 dat \<noteq> AF_INET6"
  shows "sa (set_sockaddr (Other dat) s) = replicate sizeof_sa 0"
  using assms
  by (simp add: set_sockaddr_def Let_def sa_set_family_UNSPEC)

lemma family_zero: "load16 0 (replicate sizeof_sa 0) = AF_UNSPEC"
  by (simp add: load16_zero sizeof_sa_def AF_UNSPEC_def)

lemma set_sockaddr_This: "sa (set_sockaddr This s) = replicate sizeof_sa 0"
  by (simp add: set_sockaddr_def Let_def sa_set_family_UNSPEC family_zero families_distinct)

lemma errno_set_sockaddr: "errno (set_sockaddr p s) = errno s"
  by (simp add: set_sockaddr_def Let_def errno_set_family)

lemma length_set_sockaddr: "length (sa (set_sockaddr p s)) = sizeof_sa"
  by (simp add: set_sockaddr_def Let_def sa_set_family_UNSPEC)
     (simp add: memcpy_def layout_defs)

text \<open>
  C7, as amended. When the structure passed to \<open>set (const sockaddr *)\<close> is not the object
  itself and has at least the bytes of its family's layout: on a structure of family
  IPv4 the object is left with the first \<open>sizeof (sockaddr_in)\<close> bytes of the structure
  followed by zeros; on a structure of family IPv6 with the first
  \<open>sizeof (sockaddr_in6)\<close> bytes followed by zeros; on any other family all zero, with
  family \<open>AF_UNSPEC\<close>. When the structure is the object itself, the object is left all
  zero, with family \<open>AF_UNSPEC\<close>, whatever its family was.
\<close>

theorem C7_set_sockaddr:
  "(load16 0 dat = AF_INET \<and> sizeof_sin \<le> length dat \<longrightarrow>
      sa (set_sockaddr (Other dat) s) =
        take sizeof_sin dat @ replicate (sizeof_sa - sizeof_sin) 0) \<and>
   (load16 0 dat = AF_INET6 \<and> sizeof_sin6 \<le> length dat \<longrightarrow>
      sa (set_sockaddr (Other dat) s) =
        take sizeof_sin6 dat @ replicate (sizeof_sa - sizeof_sin6) 0) \<and>
   (load16 0 dat \<noteq> AF_INET \<and> load16 0 dat \<noteq> AF_INET6 \<longrightarrow>
      sa (set_sockaddr (Other dat) s) = replicate sizeof_sa 0 \<and>
      get_family (set_sockaddr (Other dat) s) = AF_UNSPEC) \<and>
   sa (set_sockaddr This s) = replicate sizeof_sa 0 \<and>
   get_family (set_sockaddr This s) = AF_UNSPEC \<and>
   length (sa (set_sockaddr p s)) = sizeof_sa \<and>
   errno (set_sockaddr p s) = errno s"
proof -
  have "get_family (set_sockaddr (Other dat) s) = AF_UNSPEC"
    if "load16 0 dat \<noteq> AF_INET" "load16 0 dat \<noteq> AF_INET6"
    using set_sockaddr_other [OF that, of s] by (simp add: get_family_def family_zero)
  moreover have "get_family (set_sockaddr This s) = AF_UNSPEC"
    by (simp add: get_family_def set_sockaddr_This family_zero)
  ultimately show ?thesis
    using set_sockaddr_v4 [of dat s] set_sockaddr_v6 [of dat s] set_sockaddr_other [of dat s]
      set_sockaddr_This [of s] length_set_sockaddr [of p s] errno_set_sockaddr [of p s]
    by blast
qed

theorem C7_set_sockaddr_witness:
  "load16 0 (store16 0 AF_INET (replicate sizeof_sa 255)) = AF_INET \<and>
   sizeof_sin \<le> length (store16 0 AF_INET (replicate sizeof_sa 255)) \<and>
   sa (set_sockaddr (Other (store16 0 AF_INET (replicate sizeof_sa 255)))
         \<lparr>sa = replicate sizeof_sa 255, errno = 0\<rparr>) =
     [2, 0] @ replicate 14 255 @ replicate 112 0 \<and>
   load16 0 (store16 0 AF_INET6 (replicate sizeof_sa 255)) = AF_INET6 \<and>
   sizeof_sin6 \<le> length (store16 0 AF_INET6 (replicate sizeof_sa 255)) \<and>
   sa (set_sockaddr (Other (store16 0 AF_INET6 (replicate sizeof_sa 255)))
         \<lparr>sa = replicate sizeof_sa 255, errno = 0\<rparr>) =
     [10, 0] @ replicate 26 255 @ replicate 100 0 \<and>
   load16 0 (replicate sizeof_sa 255) \<noteq> AF_INET \<and>
   load16 0 (replicate sizeof_sa 255) \<noteq> AF_INET6 \<and>
   sa (set_sockaddr (Other (replicate sizeof_sa 255))
         \<lparr>sa = replicate sizeof_sa 255, errno = 0\<rparr>) =
     replicate sizeof_sa 0"
proof -
  let ?s = "\<lparr>sa = replicate sizeof_sa 255, errno = 0\<rparr>"
  let ?d4 = "store16 0 AF_INET (replicate sizeof_sa 255)"
  let ?d6 = "store16 0 AF_INET6 (replicate sizeof_sa 255)"
  have f4: "load16 0 ?d4 = AF_INET" by (simp add: load16_store16 sizeof_sa_def)
  have l4: "sizeof_sin \<le> length ?d4" by (simp add: length_store16 layout_defs)
  have f6: "load16 0 ?d6 = AF_INET6" by (simp add: load16_store16 sizeof_sa_def)
  have l6: "sizeof_sin6 \<le> length ?d6" by (simp add: length_store16 layout_defs)
  have fo: "load16 0 (replicate sizeof_sa 255) \<noteq> AF_INET"
    "load16 0 (replicate sizeof_sa 255) \<noteq> AF_INET6"
    by code_simp+
  have t4: "take sizeof_sin ?d4 @ replicate (sizeof_sa - sizeof_sin) 0 =
              [2, 0] @ replicate 14 255 @ replicate 112 0"
    by code_simp
  have t6: "take sizeof_sin6 ?d6 @ replicate (sizeof_sa - sizeof_sin6) 0 =
              [10, 0] @ replicate 26 255 @ replicate 100 0"
    by code_simp
  show ?thesis
    using C7_set_sockaddr [of ?d4 ?s] C7_set_sockaddr [of ?d6 ?s]
      C7_set_sockaddr [of "replicate sizeof_sa 255" ?s] f4 l4 f6 l6 fo
    by (simp only: t4 t6 simp_thms)
qed

text \<open>
  C7 as it is written fails: after \<open>a.set ("1.2.3.4", 80)\<close> the structure \<open>a.data ()\<close> has
  family IPv4, yet \<open>a.set (a.data ())\<close> copies nothing and leaves \<open>a\<close> all zero.
\<close>

theorem C7_counterexample:
  "fst (socketaddr_set ''1.2.3.4'' 80 \<lparr>sa = socketaddr, errno = 0\<rparr>) = 0 \<and>
   load16 0 (data (snd (socketaddr_set ''1.2.3.4'' 80 \<lparr>sa = socketaddr, errno = 0\<rparr>))) = AF_INET \<and>
   sa (set_sockaddr This (snd (socketaddr_set ''1.2.3.4'' 80 \<lparr>sa = socketaddr, errno = 0\<rparr>))) =
     replicate sizeof_sa 0 \<and>
   sa (set_sockaddr This (snd (socketaddr_set ''1.2.3.4'' 80 \<lparr>sa = socketaddr, errno = 0\<rparr>))) \<noteq>
     take sizeof_sin (data (snd (socketaddr_set ''1.2.3.4'' 80 \<lparr>sa = socketaddr, errno = 0\<rparr>))) @
       replicate (sizeof_sa - sizeof_sin) 0"
  by code_simp

text \<open>
  C6: the default constructor leaves \<open>sizeof_sa\<close> zero bytes, whose family is \<open>AF_UNSPEC\<close>;
  on that object \<open>get_addr (buf)\<close> and \<open>get_port (port)\<close> return \<open>EAFNOSUPPORT\<close> and leave
  \<open>buf\<close> and \<open>port\<close> as they were.
\<close>

theorem C6_default_constructed:
  "get_family \<lparr>sa = socketaddr, errno = e\<rparr> = AF_UNSPEC \<and>
   length socketaddr = sizeof_sa \<and> set socketaddr = {0} \<and>
   get_addr_buf buf \<lparr>sa = socketaddr, errno = e\<rparr> =
     (EAFNOSUPPORT, buf, \<lparr>sa = socketaddr, errno = EAFNOSUPPORT\<rparr>) \<and>
   get_port_ref port \<lparr>sa = socketaddr, errno = e\<rparr> = (EAFNOSUPPORT, port)"
proof -
  have f: "load16 0 socketaddr = AF_UNSPEC"
    by (simp add: socketaddr_def load16_zero sizeof_sa_def AF_UNSPEC_def)
  then show ?thesis
    by (simp add: get_family_def get_addr_buf_def get_port_ref_def families_distinct)
       (simp add: socketaddr_def sizeof_sa_def)
qed

section \<open>Building an address from text\<close>

lemma get_port_ref_v4:
  "load16 0 (sa s) = AF_INET \<Longrightarrow> get_port_ref port s = (0, ntoh (load16 off_sin_port (sa s)))"
  by (simp add: get_port_ref_def)

lemma get_port_ref_v6:
  "load16 0 (sa s) = AF_INET6 \<Longrightarrow> get_port_ref port s = (0, ntoh (load16 off_sin6_port (sa s)))"
  by (simp add: get_port_ref_def families_distinct)

lemma get_port_ref_other:
  "load16 0 (sa s) \<noteq> AF_INET \<Longrightarrow> load16 0 (sa s) \<noteq> AF_INET6 \<Longrightarrow>
   get_port_ref port s = (EAFNOSUPPORT, port)"
  by (simp add: get_port_ref_def)

text \<open>The object after a successful \<open>set (addr, port)\<close>, read back by each accessor.\<close>

lemma set_then_get_v4:
  assumes p: "inet_pton4 (c_str addr) = Some b" and r: "socketaddr_set addr port s = (err, A)"
  shows "err = 0" and "errno A = errno s" and "length (sa A) = sizeof_sa"
    and "load16 0 (sa A) = AF_INET"
    and "get_port A = port" and "get_addr A = (inet_ntop4 b, A)"
    and "take sizeof_sin (sa A) @ replicate (sizeof_sa - sizeof_sin) 0 = sa A"
proof -
  have lb: "length b = 4" using p by (rule inet_pton4_length)
  from socketaddr_set_v4 [OF p, of port s] r
  have err: "err = 0" and e: "errno A = errno s"
    and A: "sa A = store16 off_sin_port (hton port)
               (memcpy off_sin_addr b (store16 0 AF_INET (replicate sizeof_sa 0)))"
    by auto
  note im = sin_image [OF lb A]
  show "err = 0" by (rule err)
  show "errno A = errno s" by (rule e)
  show "length (sa A) = sizeof_sa" by (rule im(1))
  show f: "load16 0 (sa A) = AF_INET" by (rule im(2))
  show "get_port A = port"
    by (simp add: get_port_def get_port_ref_v4 [OF f] im(3) ntoh_hton)
  show "get_addr A = (inet_ntop4 b, A)"
    by (simp add: get_addr_def get_addr_buf_v4 [OF f] im(4))
  show "take sizeof_sin (sa A) @ replicate (sizeof_sa - sizeof_sin) 0 = sa A" by (rule im(5))
qed

lemma set_then_get_v6:
  assumes n: "inet_pton4 (c_str addr) = None" and p: "inet_pton6 (c_str addr) = Some b"
    and r: "socketaddr_set addr port s = (err, A)"
  shows "err = 0" and "errno A = errno s" and "length (sa A) = sizeof_sa"
    and "load16 0 (sa A) = AF_INET6"
    and "get_port A = port" and "get_addr A = (inet_ntop6 b, A)"
    and "take sizeof_sin6 (sa A) @ replicate (sizeof_sa - sizeof_sin6) 0 = sa A"
proof -
  have lb: "length b = 16" using p by (rule inet_pton6_length)
  from socketaddr_set_v6 [OF n p, of port s] r
  have err: "err = 0" and e: "errno A = errno s"
    and A: "sa A = store16 off_sin6_port (hton port)
               (memcpy off_sin6_addr b (store16 0 AF_INET6 (replicate sizeof_sa 0)))"
    by auto
  note im = sin6_image [OF lb A]
  show "err = 0" by (rule err)
  show "errno A = errno s" by (rule e)
  show "length (sa A) = sizeof_sa" by (rule im(1))
  show f: "load16 0 (sa A) = AF_INET6" by (rule im(2))
  show "get_port A = port"
    by (simp add: get_port_def get_port_ref_v6 [OF f] im(3) ntoh_hton)
  show "get_addr A = (inet_ntop6 b, A)"
    by (simp add: get_addr_def get_addr_buf_v6 [OF f] im(4))
  show "take sizeof_sin6 (sa A) @ replicate (sizeof_sa - sizeof_sin6) 0 = sa A" by (rule im(5))
qed

lemma EAFNOSUPPORT_nonzero: "EAFNOSUPPORT \<noteq> 0" "EINVAL \<noteq> 0" "EINVAL \<noteq> EAFNOSUPPORT"
  by (simp_all add: EAFNOSUPPORT_def EINVAL_def)

text \<open>
  C3: when \<open>set (text, port)\<close> has returned 0 and left the object \<open>A\<close>, any second object
  on which \<open>set (A.data ())\<close> is called afterwards holds the bytes of \<open>A\<close>, and \<open>operator==\<close>
  says so.
\<close>

theorem C3_round_trip:
  assumes "socketaddr_set text port s = (0, A)"
  shows "sa (set_sockaddr (Other (data A)) B) = sa A \<and>
         operator_eq (sa (set_sockaddr (Other (data A)) B)) (sa A)"
proof -
  have "sa (set_sockaddr (Other (data A)) B) = sa A"
  proof (cases "inet_pton4 (c_str text)")
    case (Some b)
    note g = set_then_get_v4 [OF Some assms]
    from g(3) have "sizeof_sin \<le> length (sa A)" by (simp add: layout_defs)
    from set_sockaddr_v4 [OF g(4) this, of B] g(7) show ?thesis by (simp add: data_def)
  next
    case None
    show ?thesis
    proof (cases "inet_pton6 (c_str text)")
      case (Some b)
      note g = set_then_get_v6 [OF None Some assms]
      from g(3) have "sizeof_sin6 \<le> length (sa A)" by (simp add: layout_defs)
      from set_sockaddr_v6 [OF g(4) this, of B] g(7) show ?thesis by (simp add: data_def)
    next
      case n6: None
      from socketaddr_set_neither [OF None n6, of port s] assms show ?thesis
        by (simp add: EAFNOSUPPORT_nonzero)
    qed
  qed
  then show ?thesis by (simp add: operator_eq_def memcmp_same)
qed

theorem C3_round_trip_witness:
  "socketaddr_set ''10.0.0.1'' 53 \<lparr>sa = socketaddr, errno = 0\<rparr> =
     (0, snd (socketaddr_set ''10.0.0.1'' 53 \<lparr>sa = socketaddr, errno = 0\<rparr>)) \<and>
   get_family (snd (socketaddr_set ''10.0.0.1'' 53 \<lparr>sa = socketaddr, errno = 0\<rparr>)) = AF_INET \<and>
   operator_eq
     (sa (set_sockaddr (Other (data (snd (socketaddr_set ''10.0.0.1'' 53 \<lparr>sa = socketaddr, errno = 0\<rparr>))))
            \<lparr>sa = replicate sizeof_sa 255, errno = 0\<rparr>))
     (sa (snd (socketaddr_set ''10.0.0.1'' 53 \<lparr>sa = socketaddr, errno = 0\<rparr>)))"
proof -
  let ?r = "socketaddr_set ''10.0.0.1'' 53 \<lparr>sa = socketaddr, errno = 0\<rparr>"
  have "fst ?r = 0" by code_simp
  then have h: "?r = (0, snd ?r)" by (metis prod.collapse)
  have f: "get_family (snd ?r) = AF_INET" by code_simp
  show ?thesis
    using C3_round_trip [OF h, of "\<lparr>sa = replicate sizeof_sa 255, errno = 0\<rparr>"] h f
    by - (elim conjE, intro conjI; assumption)
qed




section \<open>Texts that are no literal\<close>

text \<open>
  C4, as amended. \<open>set_addr (text)\<close> returns \<open>EAFNOSUPPORT\<close> when the family of the object is
  neither \<open>AF_INET\<close> nor \<open>AF_INET6\<close>. When it is one of them, what is parsed is \<open>text\<close> up to
  its first NUL character: \<open>set_addr\<close> returns \<open>EINVAL\<close> and leaves the object as it was when
  that is no literal of the family, and otherwise returns 0 with the bytes of the address
  written at the address field of the family's structure and no other byte changed. The
  error returned is also assigned to \<open>errno\<close>.
\<close>

theorem C4_set_addr:
  "(load16 0 (sa s) \<noteq> AF_INET \<and> load16 0 (sa s) \<noteq> AF_INET6 \<longrightarrow>
      set_addr text s = (EAFNOSUPPORT, s\<lparr>errno := EAFNOSUPPORT\<rparr>)) \<and>
   (load16 0 (sa s) = AF_INET \<and> inet_pton4 (c_str text) = None \<longrightarrow>
      set_addr text s = (EINVAL, s\<lparr>errno := EINVAL\<rparr>)) \<and>
   (load16 0 (sa s) = AF_INET6 \<and> inet_pton6 (c_str text) = None \<longrightarrow>
      set_addr text s = (EINVAL, s\<lparr>errno := EINVAL\<rparr>)) \<and>
   (load16 0 (sa s) = AF_INET \<and> inet_pton4 (c_str text) = Some b \<and> length (sa s) = sizeof_sa \<longrightarrow>
      set_addr text s = (0, s\<lparr>sa := memcpy off_sin_addr b (sa s)\<rparr>) \<and>
      take 4 (drop off_sin_addr (memcpy off_sin_addr b (sa s))) = b \<and>
      take off_sin_addr (memcpy off_sin_addr b (sa s)) = take off_sin_addr (sa s) \<and>
      drop (off_sin_addr + 4) (memcpy off_sin_addr b (sa s)) = drop (off_sin_addr + 4) (sa s)) \<and>
   (load16 0 (sa s) = AF_INET6 \<and> inet_pton6 (c_str text) = Some b \<and> length (sa s) = sizeof_sa \<longrightarrow>
      set_addr text s = (0, s\<lparr>sa := memcpy off_sin6_addr b (sa s)\<rparr>) \<and>
      take 16 (drop off_sin6_addr (memcpy off_sin6_addr b (sa s))) = b \<and>
      take off_sin6_addr (memcpy off_sin6_addr b (sa s)) = take off_sin6_addr (sa s) \<and>
      drop (off_sin6_addr + 16) (memcpy off_sin6_addr b (sa s)) = drop (off_sin6_addr + 16) (sa s))"
proof (intro conjI impI)
  assume "load16 0 (sa s) \<noteq> AF_INET \<and> load16 0 (sa s) \<noteq> AF_INET6"
  then show "set_addr text s = (EAFNOSUPPORT, s\<lparr>errno := EAFNOSUPPORT\<rparr>)"
    by (simp add: set_addr_other)
next
  assume "load16 0 (sa s) = AF_INET \<and> inet_pton4 (c_str text) = None"
  then show "set_addr text s = (EINVAL, s\<lparr>errno := EINVAL\<rparr>)"
    by (simp add: set_addr_v4_invalid)
next
  assume "load16 0 (sa s) = AF_INET6 \<and> inet_pton6 (c_str text) = None"
  then show "set_addr text s = (EINVAL, s\<lparr>errno := EINVAL\<rparr>)"
    by (simp add: set_addr_v6_invalid)
next
  assume a: "load16 0 (sa s) = AF_INET \<and> inet_pton4 (c_str text) = Some b \<and> length (sa s) = sizeof_sa"
  then have lb: "length b = 4" using inet_pton4_length by blast
  from a show "set_addr text s = (0, s\<lparr>sa := memcpy off_sin_addr b (sa s)\<rparr>)"
    by (simp add: set_addr_v4)
  from a lb show "take 4 (drop off_sin_addr (memcpy off_sin_addr b (sa s))) = b"
    by (simp add: memcpy_def layout_defs)
  from a lb show "take off_sin_addr (memcpy off_sin_addr b (sa s)) = take off_sin_addr (sa s)"
    by (simp add: memcpy_def layout_defs)
  from a lb show "drop (off_sin_addr + 4) (memcpy off_sin_addr b (sa s)) = drop (off_sin_addr + 4) (sa s)"
    by (simp add: memcpy_def layout_defs)
next
  assume a: "load16 0 (sa s) = AF_INET6 \<and> inet_pton6 (c_str text) = Some b \<and> length (sa s) = sizeof_sa"
  then have lb: "length b = 16" using inet_pton6_length by blast
  from a show "set_addr text s = (0, s\<lparr>sa := memcpy off_sin6_addr b (sa s)\<rparr>)"
    by (simp add: set_addr_v6)
  from a lb show "take 16 (drop off_sin6_addr (memcpy off_sin6_addr b (sa s))) = b"
    by (simp add: memcpy_def layout_defs)
  from a lb show "take off_sin6_addr (memcpy off_sin6_addr b (sa s)) = take off_sin6_addr (sa s)"
    by (simp add: memcpy_def layout_defs)
  from a lb show "drop (off_sin6_addr + 16) (memcpy off_sin6_addr b (sa s)) = drop (off_sin6_addr + 16) (sa s)"
    by (simp add: memcpy_def layout_defs)
qed

theorem C4_set_addr_witness:
  "set_addr ''1.2.3.4'' \<lparr>sa = socketaddr, errno = 0\<rparr> =
     (EAFNOSUPPORT, \<lparr>sa = socketaddr, errno = 0\<rparr>\<lparr>errno := EAFNOSUPPORT\<rparr>) \<and>
   set_addr ''1.2.3'' (set_family AF_INET \<lparr>sa = socketaddr, errno = 0\<rparr>) =
     (EINVAL, (set_family AF_INET \<lparr>sa = socketaddr, errno = 0\<rparr>)\<lparr>errno := EINVAL\<rparr>) \<and>
   set_addr ''1.2.3.4'' (set_family AF_INET6 \<lparr>sa = socketaddr, errno = 0\<rparr>) =
     (EINVAL, (set_family AF_INET6 \<lparr>sa = socketaddr, errno = 0\<rparr>)\<lparr>errno := EINVAL\<rparr>) \<and>
   set_addr ''1.2.3.4'' (set_family AF_INET \<lparr>sa = socketaddr, errno = 0\<rparr>) =
     (0, (set_family AF_INET \<lparr>sa = socketaddr, errno = 0\<rparr>)
           \<lparr>sa := memcpy off_sin_addr [1, 2, 3, 4]
                   (sa (set_family AF_INET \<lparr>sa = socketaddr, errno = 0\<rparr>))\<rparr>) \<and>
   set_addr ''::1'' (set_family AF_INET6 \<lparr>sa = socketaddr, errno = 0\<rparr>) =
     (0, (set_family AF_INET6 \<lparr>sa = socketaddr, errno = 0\<rparr>)
           \<lparr>sa := memcpy off_sin6_addr [0, 0, 0, 0, 0, 0, 0, 0, 0, 0, 0, 0, 0, 0, 0, 1]
                   (sa (set_family AF_INET6 \<lparr>sa = socketaddr, errno = 0\<rparr>))\<rparr>)"
proof -
  let ?s0 = "\<lparr>sa = socketaddr, errno = 0\<rparr>"
  let ?s4 = "set_family AF_INET ?s0"
  let ?s6 = "set_family AF_INET6 ?s0"
  have f0: "load16 0 (sa ?s0) \<noteq> AF_INET \<and> load16 0 (sa ?s0) \<noteq> AF_INET6" by code_simp
  have f4: "load16 0 (sa ?s4) = AF_INET" by (rule family_set_family)
  have f6: "load16 0 (sa ?s6) = AF_INET6" by (rule family_set_family)
  have l4: "length (sa ?s4) = sizeof_sa" by (rule length_set_family)
  have l6: "length (sa ?s6) = sizeof_sa" by (rule length_set_family)
  have n4: "inet_pton4 (c_str ''1.2.3'') = None" by code_simp
  have n6: "inet_pton6 (c_str ''1.2.3.4'') = None" by code_simp
  have p4: "inet_pton4 (c_str ''1.2.3.4'') = Some [1, 2, 3, 4]" by code_simp
  have p6: "inet_pton6 (c_str ''::1'') = Some [0, 0, 0, 0, 0, 0, 0, 0, 0, 0, 0, 0, 0, 0, 0, 1]"
    by code_simp
  have w0: "set_addr ''1.2.3.4'' ?s0 = (EAFNOSUPPORT, ?s0\<lparr>errno := EAFNOSUPPORT\<rparr>)"
    using C4_set_addr [of ?s0 "''1.2.3.4''" "[]"] f0 by blast
  have w1: "set_addr ''1.2.3'' ?s4 = (EINVAL, ?s4\<lparr>errno := EINVAL\<rparr>)"
    using C4_set_addr [of ?s4 "''1.2.3''" "[]"] f4 n4 by blast
  have w2: "set_addr ''1.2.3.4'' ?s6 = (EINVAL, ?s6\<lparr>errno := EINVAL\<rparr>)"
    using C4_set_addr [of ?s6 "''1.2.3.4''" "[]"] f6 n6 by blast
  have w3: "set_addr ''1.2.3.4'' ?s4 = (0, ?s4\<lparr>sa := memcpy off_sin_addr [1, 2, 3, 4] (sa ?s4)\<rparr>)"
    using C4_set_addr [of ?s4 "''1.2.3.4''" "[1, 2, 3, 4]"] f4 p4 l4 by blast
  have w4: "set_addr ''::1'' ?s6 =
      (0, ?s6\<lparr>sa := memcpy off_sin6_addr [0, 0, 0, 0, 0, 0, 0, 0, 0, 0, 0, 0, 0, 0, 0, 1] (sa ?s6)\<rparr>)"
    using C4_set_addr [of ?s6 "''::1''" "[0, 0, 0, 0, 0, 0, 0, 0, 0, 0, 0, 0, 0, 0, 0, 1]"] f6 p6 l6
    by blast
  show ?thesis using w0 w1 w2 w3 w4 by (intro conjI)
qed

text \<open>
  C4 as it is written fails: the text \<open>1.2.3.4\<close> followed by a NUL character and \<open>x\<close> is no
  IPv4 literal, yet on an object of family \<open>AF_INET\<close> \<open>set_addr\<close> returns 0 and writes the
  address 1.2.3.4.
\<close>

theorem C4_counterexample:
  "inet_pton4 (''1.2.3.4'' @ [NUL] @ ''x'') = None \<and>
   get_family (set_family AF_INET \<lparr>sa = socketaddr, errno = 0\<rparr>) = AF_INET \<and>
   fst (set_addr (''1.2.3.4'' @ [NUL] @ ''x'') (set_family AF_INET \<lparr>sa = socketaddr, errno = 0\<rparr>)) = 0 \<and>
   EINVAL \<noteq> 0 \<and>
   take 4 (drop off_sin_addr (sa (snd (set_addr (''1.2.3.4'' @ [NUL] @ ''x'')
      (set_family AF_INET \<lparr>sa = socketaddr, errno = 0\<rparr>))))) = [1, 2, 3, 4]"
  by code_simp

text \<open>
  C5, as amended. When the text \<open>S\<close> up to its first NUL character is neither an IPv4 nor
  an IPv6 literal, \<open>set (S, P)\<close> returns \<open>EAFNOSUPPORT\<close> (and assigns it to \<open>errno\<close>), and
  \<open>is_ipv4 (S)\<close> and \<open>is_ipv6 (S)\<close> return false.
\<close>

theorem C5_not_a_literal:
  assumes "inet_pton4 (c_str S) = None" and "inet_pton6 (c_str S) = None"
  shows "socketaddr_set S P s = (EAFNOSUPPORT, s\<lparr>errno := EAFNOSUPPORT\<rparr>) \<and>
         is_ipv4 S e = (False, e) \<and> is_ipv6 S e = (False, e)"
  using assms
  by (simp add: socketaddr_set_neither is_ipv4_def is_ipv6_def socketaddr_is_AF_INET
        socketaddr_is_AF_INET6)

theorem C5_not_a_literal_witness:
  "inet_pton4 (c_str ''not-an-ip'') = None \<and> inet_pton6 (c_str ''not-an-ip'') = None \<and>
   socketaddr_set ''not-an-ip'' 80 \<lparr>sa = socketaddr, errno = 0\<rparr> =
     (EAFNOSUPPORT, \<lparr>sa = socketaddr, errno = 0\<rparr>\<lparr>errno := EAFNOSUPPORT\<rparr>) \<and>
   is_ipv4 ''not-an-ip'' 0 = (False, 0) \<and> is_ipv6 ''not-an-ip'' 0 = (False, 0)"
proof -
  have n4: "inet_pton4 (c_str ''not-an-ip'') = None" by code_simp
  have n6: "inet_pton6 (c_str ''not-an-ip'') = None" by code_simp
  show ?thesis
    using C5_not_a_literal [OF n4 n6, of 80 "\<lparr>sa = socketaddr, errno = 0\<rparr>" 0] n4 n6
    by - (elim conjE, intro conjI; assumption)
qed

text \<open>
  C5 as it is written fails: the text \<open>1.2.3.4\<close> followed by a NUL character is neither an
  IPv4 nor an IPv6 literal, yet \<open>set\<close> returns 0 on it and \<open>is_ipv4\<close> returns true.
\<close>

theorem C5_counterexample:
  "inet_pton4 (''1.2.3.4'' @ [NUL]) = None \<and> inet_pton6 (''1.2.3.4'' @ [NUL]) = None \<and>
   fst (socketaddr_set (''1.2.3.4'' @ [NUL]) 80 \<lparr>sa = socketaddr, errno = 0\<rparr>) = 0 \<and>
   EAFNOSUPPORT \<noteq> 0 \<and>
   fst (is_ipv4 (''1.2.3.4'' @ [NUL]) 0)"
  by code_simp

text \<open>
  C10, as amended. When \<open>text\<close> up to its first NUL character is neither an IPv4 nor an
  IPv6 literal, \<open>set (text, port)\<close> returns the error \<open>EAFNOSUPPORT\<close> and every byte of the
  object is what it was before the call.
\<close>

theorem C10_failure_keeps_bytes:
  assumes "inet_pton4 (c_str text) = None" and "inet_pton6 (c_str text) = None"
  shows "fst (socketaddr_set text port s) = EAFNOSUPPORT \<and>
         fst (socketaddr_set text port s) \<noteq> 0 \<and>
         sa (snd (socketaddr_set text port s)) = sa s"
  using assms by (simp add: socketaddr_set_neither EAFNOSUPPORT_nonzero)

theorem C10_failure_keeps_bytes_witness:
  "inet_pton4 (c_str ''localhost'') = None \<and> inet_pton6 (c_str ''localhost'') = None \<and>
   fst (socketaddr_set ''localhost'' 80
          (snd (socketaddr_set ''10.0.0.1'' 53 \<lparr>sa = socketaddr, errno = 0\<rparr>))) = EAFNOSUPPORT \<and>
   sa (snd (socketaddr_set ''localhost'' 80
          (snd (socketaddr_set ''10.0.0.1'' 53 \<lparr>sa = socketaddr, errno = 0\<rparr>)))) =
     sa (snd (socketaddr_set ''10.0.0.1'' 53 \<lparr>sa = socketaddr, errno = 0\<rparr>)) \<and>
   get_family (snd (socketaddr_set ''10.0.0.1'' 53 \<lparr>sa = socketaddr, errno = 0\<rparr>)) = AF_INET"
proof -
  have n4: "inet_pton4 (c_str ''localhost'') = None" by code_simp
  have n6: "inet_pton6 (c_str ''localhost'') = None" by code_simp
  have f: "get_family (snd (socketaddr_set ''10.0.0.1'' 53 \<lparr>sa = socketaddr, errno = 0\<rparr>)) = AF_INET"
    by code_simp
  show ?thesis
    using C10_failure_keeps_bytes [OF n4 n6, of 80
        "snd (socketaddr_set ''10.0.0.1'' 53 \<lparr>sa = socketaddr, errno = 0\<rparr>)"] n4 n6 f
    by - (elim conjE, intro conjI; assumption)
qed

text \<open>
  C10 as it is written fails: the text \<open>::1\<close> followed by a NUL character and \<open>zz\<close> is
  neither an IPv4 nor an IPv6 literal, yet \<open>set\<close> returns 0 on it and overwrites the object.
\<close>

theorem C10_counterexample:
  "inet_pton4 (''::1'' @ [NUL] @ ''zz'') = None \<and> inet_pton6 (''::1'' @ [NUL] @ ''zz'') = None \<and>
   fst (socketaddr_set (''::1'' @ [NUL] @ ''zz'') 80 \<lparr>sa = socketaddr, errno = 0\<rparr>) = 0 \<and>
   sa (snd (socketaddr_set (''::1'' @ [NUL] @ ''zz'') 80 \<lparr>sa = socketaddr, errno = 0\<rparr>)) \<noteq>
     sa \<lparr>sa = socketaddr, errno = 0\<rparr>"
  by code_simp

section \<open>Errors and \<open>errno\<close>\<close>

lemma set_addr_errno:
  "errno (snd (set_addr ip s)) = (if fst (set_addr ip s) = 0 then errno s else fst (set_addr ip s))"
proof (cases "load16 0 (sa s) = AF_INET")
  case True
  then show ?thesis
    by (cases "inet_pton4 (c_str ip)")
       (simp_all add: set_addr_v4 set_addr_v4_invalid EAFNOSUPPORT_nonzero)
next
  case n4: False
  show ?thesis
  proof (cases "load16 0 (sa s) = AF_INET6")
    case True
    then show ?thesis
      by (cases "inet_pton6 (c_str ip)")
         (simp_all add: set_addr_v6 set_addr_v6_invalid EAFNOSUPPORT_nonzero)
  next
    case False
    with n4 show ?thesis by (simp add: set_addr_other EAFNOSUPPORT_nonzero)
  qed
qed

lemma set_port_errno:
  "errno (snd (set_port port s)) = (if fst (set_port port s) = 0 then errno s else fst (set_port port s))"
  by (simp add: set_port_def EAFNOSUPPORT_nonzero)

lemma socketaddr_set_errno:
  "errno (snd (socketaddr_set ip port s)) =
     (if fst (socketaddr_set ip port s) = 0 then errno s else fst (socketaddr_set ip port s))"
proof (cases "inet_pton4 (c_str ip)")
  case (Some b)
  then show ?thesis by (simp add: socketaddr_set_v4)
next
  case None
  then show ?thesis
    by (cases "inet_pton6 (c_str ip)")
       (simp_all add: socketaddr_set_v6 socketaddr_set_neither EAFNOSUPPORT_nonzero)
qed

lemma get_addr_buf_errno:
  "errno (snd (snd (get_addr_buf buf s))) =
     (if fst (get_addr_buf buf s) = 0 then errno s else fst (get_addr_buf buf s)) \<and>
   sa (snd (snd (get_addr_buf buf s))) = sa s"
proof (cases "load16 0 (sa s) = AF_INET")
  case True
  then show ?thesis by (simp add: get_addr_buf_v4)
next
  case n4: False
  show ?thesis
  proof (cases "load16 0 (sa s) = AF_INET6")
    case True
    then show ?thesis by (simp add: get_addr_buf_v6)
  next
    case False
    with n4 show ?thesis by (simp add: get_addr_buf_other EAFNOSUPPORT_nonzero)
  qed
qed

text \<open>
  C8, as amended. Each of \<open>set_addr\<close>, \<open>set_port\<close>, \<open>set\<close> and \<open>get_addr (buf)\<close> returns its
  outcome, and when the outcome is an error it also assigns the error to \<open>errno\<close>; when
  the outcome is 0, \<open>errno\<close> is what it was before the call. \<open>get_addr (buf)\<close> leaves the
  object as it was. \<open>get_port (port)\<close> returns 0 or \<open>EAFNOSUPPORT\<close> and neither reads nor
  assigns \<open>errno\<close>.
\<close>

theorem C8_errno:
  "errno (snd (set_addr ip s)) =
     (if fst (set_addr ip s) = 0 then errno s else fst (set_addr ip s)) \<and>
   errno (snd (set_port port s)) =
     (if fst (set_port port s) = 0 then errno s else fst (set_port port s)) \<and>
   errno (snd (socketaddr_set ip port s)) =
     (if fst (socketaddr_set ip port s) = 0 then errno s else fst (socketaddr_set ip port s)) \<and>
   errno (snd (snd (get_addr_buf buf s))) =
     (if fst (get_addr_buf buf s) = 0 then errno s else fst (get_addr_buf buf s)) \<and>
   sa (snd (snd (get_addr_buf buf s))) = sa s \<and>
   (fst (get_port_ref p s) = 0 \<or> fst (get_port_ref p s) = EAFNOSUPPORT) \<and>
   get_port_ref p (s\<lparr>errno := e\<rparr>) = get_port_ref p s"
proof -
  have "fst (get_port_ref p s) = 0 \<or> fst (get_port_ref p s) = EAFNOSUPPORT"
    by (simp add: get_port_ref_def)
  moreover have "get_port_ref p (s\<lparr>errno := e\<rparr>) = get_port_ref p s"
    by (simp add: get_port_ref_def)
  ultimately show ?thesis
    using set_addr_errno [of ip s] set_port_errno [of port s] socketaddr_set_errno [of ip port s]
      get_addr_buf_errno [of buf s]
    by (intro conjI) (simp_all only:)
qed

text \<open>
  C8 as it is written fails: on a default-constructed object with \<open>errno\<close> 0, \<open>set_addr\<close>,
  \<open>set_port\<close> and \<open>get_addr (buf)\<close>, and \<open>set\<close> on a text that is no literal, all leave
  \<open>EAFNOSUPPORT\<close> in \<open>errno\<close>.
\<close>

theorem C8_counterexample:
  "errno \<lparr>sa = socketaddr, errno = 0\<rparr> = 0 \<and> EAFNOSUPPORT \<noteq> 0 \<and>
   errno (snd (set_addr ''1.2.3.4'' \<lparr>sa = socketaddr, errno = 0\<rparr>)) = EAFNOSUPPORT \<and>
   errno (snd (set_port 80 \<lparr>sa = socketaddr, errno = 0\<rparr>)) = EAFNOSUPPORT \<and>
   errno (snd (socketaddr_set ''not-an-ip'' 80 \<lparr>sa = socketaddr, errno = 0\<rparr>)) = EAFNOSUPPORT \<and>
   errno (snd (snd (get_addr_buf [] \<lparr>sa = socketaddr, errno = 0\<rparr>))) = EAFNOSUPPORT"
  by code_simp

lemma hex_nonempty: "hex n \<noteq> []"
  by (subst hex.simps) simp

lemma inet_ntop4_nonempty: "inet_ntop4 src \<noteq> []"
  by (simp add: inet_ntop4_def)

lemma run_step_base:
  "- 1 \<le> fst (fst bc) \<Longrightarrow> - 1 \<le> fst (snd bc) \<Longrightarrow>
   - 1 \<le> fst (fst (run_step words bc i)) \<and> - 1 \<le> fst (snd (run_step words bc i))"
  by (cases bc) (auto simp: run_step_def)

lemma foldl_run_step_base:
  "- 1 \<le> fst (fst bc) \<Longrightarrow> - 1 \<le> fst (snd bc) \<Longrightarrow>
   - 1 \<le> fst (fst (foldl (run_step words) bc is)) \<and>
   - 1 \<le> fst (snd (foldl (run_step words) bc is))"
proof (induction "is" arbitrary: bc)
  case Nil
  then show ?case by simp
next
  case (Cons i "is")
  from run_step_base [OF Cons.prems, of words i]
  show ?case by (simp add: Cons.IH)
qed

lemma best_run_base: "- 1 \<le> fst (best_run words)"
proof -
  obtain best cur where f: "foldl (run_step words) ((- 1, 0), (- 1, 0)) [0..<8] = (best, cur)"
    by (cases "foldl (run_step words) ((- 1, 0), (- 1, 0)) [0..<8]")
  from foldl_run_step_base [of "((- 1, 0), (- 1, 0))" words "[0..<8]"] f
  have "- 1 \<le> fst best" "- 1 \<le> fst cur" by simp_all
  then show ?thesis by (simp add: best_run_def f Let_def del: upt_Suc)
qed

lemma inet_ntop6_loop_nonempty:
  "- 1 \<le> fst best \<Longrightarrow> inet_ntop6_loop (0 # js) src words best \<noteq> []"
  by (auto simp: hex_nonempty)

lemma inet_ntop6_nonempty: "inet_ntop6 src \<noteq> []"
  by (simp add: inet_ntop6_def Let_def upt_0_8 inet_ntop6_loop_nonempty [OF best_run_base]
        del: inet_ntop6_loop.simps)

text \<open>
  C9, as amended. When the family of the object is neither \<open>AF_INET\<close> nor \<open>AF_INET6\<close> (as
  it is when it is \<open>AF_UNSPEC\<close>), \<open>get_addr ()\<close> returns the empty string and \<open>get_port ()\<close>
  returns 0: the error code of the overload they call is dropped. For \<open>get_port ()\<close> the
  caller cannot tell the failure from a stored port: 0 is also what it returns for an
  address whose port is 0, and \<open>errno\<close> is not assigned. For \<open>get_addr ()\<close> the caller can:
  on an object of family \<open>AF_INET\<close> or \<open>AF_INET6\<close> the string returned is never empty and
  \<open>errno\<close> is left as it was, while the failure leaves \<open>EAFNOSUPPORT\<close> in \<open>errno\<close>.
\<close>

theorem C9_error_dropped:
  "(get_family s \<noteq> AF_INET \<and> get_family s \<noteq> AF_INET6 \<longrightarrow>
      get_addr s = ([], s\<lparr>errno := EAFNOSUPPORT\<rparr>) \<and> get_port s = 0) \<and>
   (get_family s = AF_INET \<or> get_family s = AF_INET6 \<longrightarrow>
      fst (get_addr s) \<noteq> [] \<and> snd (get_addr s) = s) \<and>
   get_family (snd (socketaddr_set ''0.0.0.0'' 0 s)) = AF_INET \<and>
   get_port (snd (socketaddr_set ''0.0.0.0'' 0 s)) = 0"
proof (intro conjI impI)
  assume "get_family s \<noteq> AF_INET \<and> get_family s \<noteq> AF_INET6"
  then have f: "load16 0 (sa s) \<noteq> AF_INET" "load16 0 (sa s) \<noteq> AF_INET6"
    by (simp_all add: get_family_def)
  show "get_addr s = ([], s\<lparr>errno := EAFNOSUPPORT\<rparr>)"
    by (simp add: get_addr_def get_addr_buf_other [OF f])
  show "get_port s = 0" by (simp add: get_port_def get_port_ref_other [OF f])
next
  assume "get_family s = AF_INET \<or> get_family s = AF_INET6"
  then have "load16 0 (sa s) = AF_INET \<or> load16 0 (sa s) = AF_INET6"
    by (simp add: get_family_def)
  then have "fst (get_addr s) \<noteq> [] \<and> snd (get_addr s) = s"
  proof
    assume "load16 0 (sa s) = AF_INET"
    then show ?thesis by (simp add: get_addr_def get_addr_buf_v4 inet_ntop4_nonempty)
  next
    assume "load16 0 (sa s) = AF_INET6"
    then show ?thesis by (simp add: get_addr_def get_addr_buf_v6 inet_ntop6_nonempty)
  qed
  then show "fst (get_addr s) \<noteq> []" and "snd (get_addr s) = s" by simp_all
next
  have z: "inet_pton4 (c_str ''0.0.0.0'') = Some [0, 0, 0, 0]" by code_simp
  obtain err A where r: "socketaddr_set ''0.0.0.0'' 0 s = (err, A)"
    by (cases "socketaddr_set ''0.0.0.0'' 0 s")
  note g = set_then_get_v4 [OF z r]
  from g(4) r show "get_family (snd (socketaddr_set ''0.0.0.0'' 0 s)) = AF_INET"
    by (simp add: get_family_def)
  from g(5) r show "get_port (snd (socketaddr_set ''0.0.0.0'' 0 s)) = 0" by simp
qed

theorem C9_error_dropped_witness:
  "get_family \<lparr>sa = socketaddr, errno = 0\<rparr> \<noteq> AF_INET \<and>
   get_family \<lparr>sa = socketaddr, errno = 0\<rparr> \<noteq> AF_INET6 \<and>
   get_family \<lparr>sa = socketaddr, errno = 0\<rparr> = AF_UNSPEC \<and>
   get_addr \<lparr>sa = socketaddr, errno = 0\<rparr> =
     ([], \<lparr>sa = socketaddr, errno = 0\<rparr>\<lparr>errno := EAFNOSUPPORT\<rparr>) \<and>
   get_port \<lparr>sa = socketaddr, errno = 0\<rparr> = 0 \<and>
   get_port (snd (socketaddr_set ''0.0.0.0'' 0 \<lparr>sa = socketaddr, errno = 0\<rparr>)) = 0 \<and>
   get_family (snd (socketaddr_set ''::'' 0 \<lparr>sa = socketaddr, errno = 0\<rparr>)) = AF_INET6 \<and>
   fst (get_addr (snd (socketaddr_set ''::'' 0 \<lparr>sa = socketaddr, errno = 0\<rparr>))) \<noteq> [] \<and>
   snd (get_addr (snd (socketaddr_set ''::'' 0 \<lparr>sa = socketaddr, errno = 0\<rparr>))) =
     snd (socketaddr_set ''::'' 0 \<lparr>sa = socketaddr, errno = 0\<rparr>)"
proof -
  let ?s = "\<lparr>sa = socketaddr, errno = 0\<rparr>"
  let ?t = "snd (socketaddr_set ''::'' 0 ?s)"
  have f4: "get_family ?s \<noteq> AF_INET" by code_simp
  have f6: "get_family ?s \<noteq> AF_INET6" by code_simp
  have fu: "get_family ?s = AF_UNSPEC" by code_simp
  have ft: "get_family ?t = AF_INET6" by code_simp
  have a: "get_addr ?s = ([], ?s\<lparr>errno := EAFNOSUPPORT\<rparr>) \<and> get_port ?s = 0"
    using C9_error_dropped [of ?s] f4 f6 by blast
  have b: "get_port (snd (socketaddr_set ''0.0.0.0'' 0 ?s)) = 0"
    using C9_error_dropped [of ?s] by blast
  have c: "fst (get_addr ?t) \<noteq> [] \<and> snd (get_addr ?t) = ?t"
    using C9_error_dropped [of ?t] ft by blast
  show ?thesis
    using f4 f6 fu ft a b c by - (elim conjE, intro conjI; assumption)
qed

text \<open>
  C9 as it is written fails for \<open>get_addr ()\<close>: on the default object it returns the empty
  string and changes \<open>errno\<close> from 0 to \<open>EAFNOSUPPORT\<close>, while on the address 0.0.0.0 it
  returns \<open>0.0.0.0\<close> and leaves \<open>errno\<close> 0; the caller can tell the two apart.
\<close>

theorem C9_counterexample:
  "get_family \<lparr>sa = socketaddr, errno = 0\<rparr> = AF_UNSPEC \<and>
   fst (get_addr \<lparr>sa = socketaddr, errno = 0\<rparr>) = [] \<and>
   errno (snd (get_addr \<lparr>sa = socketaddr, errno = 0\<rparr>)) = EAFNOSUPPORT \<and>
   EAFNOSUPPORT \<noteq> 0 \<and>
   get_family (snd (socketaddr_set ''0.0.0.0'' 0 \<lparr>sa = socketaddr, errno = 0\<rparr>)) = AF_INET \<and>
   fst (get_addr (snd (socketaddr_set ''0.0.0.0'' 0 \<lparr>sa = socketaddr, errno = 0\<rparr>))) = ''0.0.0.0'' \<and>
   errno (snd (get_addr (snd (socketaddr_set ''0.0.0.0'' 0 \<lparr>sa = socketaddr, errno = 0\<rparr>)))) = 0"
  by code_simp

end
